theory Spec2Isabelle
  imports Complex_Main "HOL-Library.Word"
begin

section \<open>The voice and text chat page of the client (ChatPage)\<close>

text \<open>
  This theory embeds the chat page component (the file with \<^verbatim>\<open>export default function
  ChatPage()\<close>): its audio codec helpers, the capture handler with its voice activity
  test, the flush of the pending audio buffer, starting and stopping a voice
  conversation, the connection to the event stream with its three callbacks, and the
  sending of a text message.

  Conventions of the embedding.
  \<^item> The component's \<^verbatim>\<open>useState\<close> values and \<^verbatim>\<open>useRef\<close> cells are the fields of one
    record. An assignment to \<^verbatim>\<open>ref.current\<close> and a setter called with a value are record
    updates at the point of the call.
  \<^item> A function of the component reads a state value as it was in the render that
    created the function. For a function the user starts with a click this is the
    current value. Two callbacks outlive their render and keep what they captured: the
    recorder handler, with the timer it arms, keeps \<^verbatim>\<open>isConnected\<close>; the handlers of the
    event source keep \<^verbatim>\<open>isMuted\<close>. The captured values are fields of their own.
  \<^item> \<^verbatim>\<open>setMessages\<close> is always called with an updater, which React runs when it
    renders. An updater that appends an entry reads nothing but the list before it, so
    the entry is put at the end of \<open>messages\<close> at the call. The updater of the stream
    handler reads \<^verbatim>\<open>currentMessageIdRef.current\<close> when it runs: it is kept, with the number
    of entries queued before it, until \<open>render\<close> runs it. So \<open>messages\<close> is the
    transcript of the next render but for the text of the updaters kept. (React may run
    an updater at the call already when the component has no update pending. The runs
    below do not depend on it: where an updater is kept there, either an update is
    pending or the ref is the same at the call and at the render.)
  \<^item> What the page does to its host (requests issued, event sources opened and closed,
    timers, audio nodes) is recorded in further fields of the same record.
  \<^item> What the host decides (the clock, the random number, whether a request succeeds)
    is an argument of the function that asks for it.
  \<^item> An \<^verbatim>\<open>async\<close> function is one function of the model, its awaited results being
    arguments; \<^verbatim>\<open>sendMessage\<close> is split at its \<^verbatim>\<open>await\<close>.
  \<^item> A JavaScript string is a \<^typ>\<open>string\<close>: a list of code units below 256.
  \<^item> Console output is recorded for the stream handler alone, as a list of lines it
    returns.
  \<^item> The user id, which only names the two URLs, is left out: there is one session.
\<close>

subsection \<open>Base64: the host functions \<^verbatim>\<open>btoa\<close> and \<^verbatim>\<open>atob\<close>\<close>

type_synonym byte = "8 word"

definition b64_alphabet :: string where
  "b64_alphabet = ''ABCDEFGHIJKLMNOPQRSTUVWXYZabcdefghijklmnopqrstuvwxyz0123456789+/''"

text \<open>The character of a six-bit value; it is only asked for values below 64.\<close>

definition b64_char :: "nat \<Rightarrow> char" where
  "b64_char k = b64_alphabet ! k"

fun index_of :: "'a \<Rightarrow> 'a list \<Rightarrow> nat option" where
  "index_of x [] = None"
| "index_of x (y # ys) =
     (if x = y then Some 0 else map_option Suc (index_of x ys))"

definition b64_index :: "char \<Rightarrow> nat option" where
  "b64_index c = index_of c b64_alphabet"

text \<open>
  \<^verbatim>\<open>window.btoa\<close> (the forgiving-base64 encoding of the WHATWG standard, RFC 4648 with padding):
  three code units give four characters; a rest of one or two code units is padded
  with \<^verbatim>\<open>=\<close>. Its failure on a code unit above 255 cannot arise on a \<^typ>\<open>string\<close>.
\<close>

fun btoa :: "string \<Rightarrow> string" where
  "btoa [] = []"
| "btoa [a] =
     (let x = (of_char a :: nat)
      in [b64_char (x div 4), b64_char ((x mod 4) * 16), CHR ''='', CHR ''=''])"
| "btoa [a, b] =
     (let x = (of_char a :: nat); y = (of_char b :: nat)
      in [b64_char (x div 4), b64_char ((x mod 4) * 16 + y div 16),
          b64_char ((y mod 16) * 4), CHR ''=''])"
| "btoa (a # b # c # rest) =
     (let x = (of_char a :: nat); y = (of_char b :: nat); z = (of_char c :: nat)
      in [b64_char (x div 4), b64_char ((x mod 4) * 16 + y div 16),
          b64_char ((y mod 16) * 4 + z div 64), b64_char (z mod 64)] @ btoa rest)"

text \<open>
  \<^verbatim>\<open>window.atob\<close> (forgiving-base64 decode): remove ASCII whitespace; if the length is a
  multiple of four, remove one or two \<^verbatim>\<open>=\<close> at the end; fail if the length is then one
  more than a multiple of four or if a character is outside the alphabet; decode six
  bits per character, dropping the four or two bits left over at the end.
  \<open>None\<close> is the \<^verbatim>\<open>InvalidCharacterError\<close> that \<^verbatim>\<open>atob\<close> throws.
\<close>

definition ascii_whitespace :: "char \<Rightarrow> bool" where
  "ascii_whitespace c \<longleftrightarrow> (of_char c :: nat) \<in> {9, 10, 12, 13, 32}"

definition strip1 :: "string \<Rightarrow> string" where
  "strip1 xs = (if xs \<noteq> [] \<and> last xs = CHR ''='' then butlast xs else xs)"

definition strip_padding :: "string \<Rightarrow> string" where
  "strip_padding xs = (if length xs mod 4 = 0 then strip1 (strip1 xs) else xs)"

fun decode_sextets :: "nat list \<Rightarrow> string" where
  "decode_sextets (p # q # r # s # rest) =
     [char_of (p * 4 + q div 16), char_of ((q mod 16) * 16 + r div 4),
      char_of ((r mod 4) * 64 + s)] @ decode_sextets rest"
| "decode_sextets [p, q, r] =
     [char_of (p * 4 + q div 16), char_of ((q mod 16) * 16 + r div 4)]"
| "decode_sextets [p, q] = [char_of (p * 4 + q div 16)]"
| "decode_sextets [p] = []"
| "decode_sextets [] = []"

fun those_opt :: "'a option list \<Rightarrow> 'a list option" where
  "those_opt [] = Some []"
| "those_opt (None # xs) = None"
| "those_opt (Some x # xs) = map_option ((#) x) (those_opt xs)"

definition atob :: "string \<Rightarrow> string option" where
  "atob s =
     (let d = strip_padding (filter (\<lambda>c. \<not> ascii_whitespace c) s)
      in if length d mod 4 = 1 then None
         else map_option decode_sextets (those_opt (map b64_index d)))"

subsection \<open>Audio codec helpers of the page\<close>

definition fromCharCode :: "byte \<Rightarrow> char" where
  "fromCharCode b = char_of (unat b)"

definition charCodeAt :: "char \<Rightarrow> byte" where
  "charCodeAt c = word_of_nat (of_char c)"

text \<open>\<^verbatim>\<open>base64ToArray\<close>: the loop stores the code unit of each character of the decoded
  string; the index runs from 0 to the length.\<close>

function base64ToArray_loop :: "string \<Rightarrow> nat \<Rightarrow> byte list \<Rightarrow> byte list" where
  "base64ToArray_loop binaryString i bytes =
     (if i < length binaryString
      then base64ToArray_loop binaryString (i + 1) (bytes[i := charCodeAt (binaryString ! i)])
      else bytes)"
  by pat_completeness auto
termination
  by (relation "measure (\<lambda>(binaryString, i, bytes). length binaryString - i)") auto

declare base64ToArray_loop.simps [simp del]

definition base64ToArray :: "string \<Rightarrow> byte list option" where
  "base64ToArray base64 =
     (case atob base64 of
        None \<Rightarrow> None
      | Some binaryString \<Rightarrow>
          Some (base64ToArray_loop binaryString 0 (replicate (length binaryString) 0)))"

text \<open>\<^verbatim>\<open>arrayBufferToBase64\<close>: the loop appends one character per byte to \<^verbatim>\<open>binary\<close>.\<close>

function arrayBufferToBase64_loop :: "byte list \<Rightarrow> nat \<Rightarrow> string \<Rightarrow> string" where
  "arrayBufferToBase64_loop bytes i binary =
     (if i < length bytes
      then arrayBufferToBase64_loop bytes (i + 1) (binary @ [fromCharCode (bytes ! i)])
      else binary)"
  by pat_completeness auto
termination
  by (relation "measure (\<lambda>(bytes, i, binary). length bytes - i)") auto

declare arrayBufferToBase64_loop.simps [simp del]

definition arrayBufferToBase64 :: "byte list \<Rightarrow> string" where
  "arrayBufferToBase64 buffer = btoa (arrayBufferToBase64_loop buffer 0 [])"

subsection \<open>Numbers: samples and the conversion to 16-bit PCM\<close>

text \<open>
  A JavaScript number is a finite value or one of \<^verbatim>\<open>Infinity\<close>, \<^verbatim>\<open>-Infinity\<close>, \<^verbatim>\<open>NaN\<close>.
  Finite values are rationals here. An element of a \<^verbatim>\<open>Float32Array\<close> has a 24-bit
  significand, so its product with \<^verbatim>\<open>0x7fff\<close> is exact in double precision and is the
  rational product.
\<close>

datatype jsnum = Fin rat | PosInf | NegInf | NaN

definition times_0x7fff :: "jsnum \<Rightarrow> jsnum" where
  "times_0x7fff v =
     (case v of Fin q \<Rightarrow> Fin (q * 32767) | PosInf \<Rightarrow> PosInf | NegInf \<Rightarrow> NegInf | NaN \<Rightarrow> NaN)"

text \<open>\<^verbatim>\<open>Math.min\<close> and \<^verbatim>\<open>Math.max\<close> with a finite first argument: \<^verbatim>\<open>NaN\<close> is contagious.\<close>

definition Math_min :: "rat \<Rightarrow> jsnum \<Rightarrow> jsnum" where
  "Math_min a v =
     (case v of Fin q \<Rightarrow> Fin (min a q) | PosInf \<Rightarrow> Fin a | NegInf \<Rightarrow> NegInf | NaN \<Rightarrow> NaN)"

definition Math_max :: "rat \<Rightarrow> jsnum \<Rightarrow> jsnum" where
  "Math_max a v =
     (case v of Fin q \<Rightarrow> Fin (max a q) | PosInf \<Rightarrow> PosInf | NegInf \<Rightarrow> Fin a | NaN \<Rightarrow> NaN)"

text \<open>
  Storing a number into an \<^verbatim>\<open>Int16Array\<close> (the conversion ToInt16): \<^verbatim>\<open>NaN\<close> and the
  infinities give 0; a finite value is truncated towards zero and then reduced modulo
  \<open>2 ^ 16\<close>, which \<^const>\<open>word_of_int\<close> does.
\<close>

definition trunc :: "rat \<Rightarrow> int" where
  "trunc q = (if 0 \<le> q then \<lfloor>q\<rfloor> else \<lceil>q\<rceil>)"

definition ToInt16 :: "jsnum \<Rightarrow> 16 word" where
  "ToInt16 v = (case v of Fin q \<Rightarrow> word_of_int (trunc q) | _ \<Rightarrow> 0)"

text \<open>\<^verbatim>\<open>convertFloat32ToPCM\<close>. The returned buffer is given by its 16-bit samples.\<close>

function convertFloat32ToPCM_loop :: "jsnum list \<Rightarrow> nat \<Rightarrow> 16 word list \<Rightarrow> 16 word list" where
  "convertFloat32ToPCM_loop inputData i pcm16 =
     (if i < length inputData
      then convertFloat32ToPCM_loop inputData (i + 1)
             (pcm16[i := ToInt16 (Math_max (- 32768)
                                   (Math_min 32767 (times_0x7fff (inputData ! i))))])
      else pcm16)"
  by pat_completeness auto
termination
  by (relation "measure (\<lambda>(inputData, i, pcm16). length inputData - i)") auto

declare convertFloat32ToPCM_loop.simps [simp del]

definition convertFloat32ToPCM :: "jsnum list \<Rightarrow> 16 word list" where
  "convertFloat32ToPCM inputData =
     convertFloat32ToPCM_loop inputData 0 (replicate (length inputData) 0)"

text \<open>The bytes of a buffer of 16-bit samples (\<^verbatim>\<open>new Uint8Array(pcmData)\<close>), low byte
  first as on the little-endian hosts the page runs on.\<close>

definition int16_bytes :: "16 word \<Rightarrow> byte list" where
  "int16_bytes w = [ucast w, ucast (drop_bit 8 w)]"

definition Uint8Array :: "16 word list \<Rightarrow> byte list" where
  "Uint8Array pcmData = concat (map int16_bytes pcmData)"

subsection \<open>Voice activity test\<close>

text \<open>
  \<^verbatim>\<open>Math.sqrt(samples.reduce((sum, sample) => sum + sample * sample, 0) / samples.length)\<close>.
  The sum of squares is an integer (exact in double precision for any frame of fewer than
  \<open>2 ^ 23\<close> samples); the quotient and the root are taken in the reals. For an empty
  frame the quotient is \<^verbatim>\<open>0 / 0\<close>, that is \<^verbatim>\<open>NaN\<close>, here \<open>None\<close>; a comparison with
  \<^verbatim>\<open>NaN\<close> is false.
\<close>

definition sum_squares :: "16 word list \<Rightarrow> int" where
  "sum_squares samples = foldl (\<lambda>sum sample. sum + sint sample * sint sample) 0 samples"

definition rms :: "16 word list \<Rightarrow> real option" where
  "rms samples =
     (if length samples = 0 then None
      else Some (sqrt (real_of_int (sum_squares samples) / real (length samples))))"

definition exceeds :: "real option \<Rightarrow> real \<Rightarrow> bool" where
  "exceeds r t = (case r of None \<Rightarrow> False | Some x \<Rightarrow> t < x)"

subsection \<open>Values received from the server\<close>

text \<open>
  The result of \<^verbatim>\<open>JSON.parse\<close>. The handler reads four properties of it, compares three
  of them with constants and tests the fourth for truthiness.
\<close>

datatype json =
  JNull | JBool bool | JNum rat | JStr string | JArr "json list" | JObj "(string \<times> json) list"

text \<open>Reading a property: \<open>None\<close> is \<^verbatim>\<open>undefined\<close>. Only objects have the properties
  the handler asks for. Reading a property of \<^verbatim>\<open>null\<close> throws; the handler's model
  tests for \<^const>\<open>JNull\<close> before it reads.\<close>

fun property :: "json \<Rightarrow> string \<Rightarrow> json option" where
  "property (JObj fields) name = map_of fields name"
| "property _ name = None"

fun truthy :: "json option \<Rightarrow> bool" where
  "truthy None = False"
| "truthy (Some JNull) = False"
| "truthy (Some (JBool b)) = b"
| "truthy (Some (JNum q)) = (q \<noteq> 0)"
| "truthy (Some (JStr s)) = (s \<noteq> [])"
| "truthy (Some (JArr xs)) = True"
| "truthy (Some (JObj fields)) = True"

text \<open>
  Where the page uses a received value as a string (\<^verbatim>\<open>atob(data.data)\<close>) or adds it to
  the text of a message (\<^verbatim>\<open>msg.content + data.data\<close>), the value is a string whenever the
  server keeps to its format. For other values the host's conversion to a string and
  the host's \<^verbatim>\<open>+\<close> decide; they are parameters.
\<close>

record coercions =
  ToString :: "json \<Rightarrow> string"
  Plus_of :: "json \<Rightarrow> json \<Rightarrow> json"

definition js_string :: "coercions \<Rightarrow> json \<Rightarrow> string" where
  "js_string H v = (case v of JStr s \<Rightarrow> s | _ \<Rightarrow> ToString H v)"

definition js_plus :: "coercions \<Rightarrow> json \<Rightarrow> json \<Rightarrow> json" where
  "js_plus H a b =
     (case a of
        JStr x \<Rightarrow> (case b of JStr y \<Rightarrow> JStr (x @ y) | _ \<Rightarrow> Plus_of H a b)
      | _ \<Rightarrow> Plus_of H a b)"

text \<open>The four event shapes of the server (section 6 of the specification).\<close>

definition TurnComplete :: json where
  "TurnComplete = JObj [(''turn_complete'', JBool True)]"

definition Interrupted :: json where
  "Interrupted = JObj [(''interrupted'', JBool True)]"

definition TextDelta :: "string \<Rightarrow> json" where
  "TextDelta text = JObj [(''mime_type'', JStr ''text/plain''), (''data'', JStr text)]"

definition AudioChunk :: "string \<Rightarrow> json" where
  "AudioChunk pcmBase64 = JObj [(''mime_type'', JStr ''audio/pcm''), (''data'', JStr pcmBase64)]"

subsection \<open>The state of the page and of its host\<close>

datatype sender = User | Ai

text \<open>A transcript entry. The optional \<^verbatim>\<open>type\<close> of the interface is never set by the
  page and is left out. The text is whatever was stored, a string in all entries the
  page writes itself.\<close>

record message =
  msg_id :: string
  content :: json
  sender :: sender
  timestamp :: nat

text \<open>The body of a request to \<^verbatim>\<open>/send/{userId}\<close>.\<close>

record outbound =
  body_mime_type :: string
  body_data :: string

text \<open>
  Modelled from the spec: the player worklet (\<^verbatim>\<open>/pcm-player-processor.js\<close>) is not among
  the sources. Section 4.4: \<^emph>\<open>enqueue\<close> pushes bytes onto the playback queue in arrival
  order; \<^emph>\<open>interrupt\<close> discards all queued audio and halts the buffer being played.
\<close>

record player =
  queue :: "byte list list"
  playing :: "byte list option"

text \<open>Modelled from the spec: a player that has just been started (section 4.4, the
  worklet's source is missing) has nothing queued and plays nothing.\<close>

definition new_player :: player where
  "new_player = \<lparr>queue = [], playing = None\<rparr>"

text \<open>Modelled from the spec: what the missing worklet does with a buffer posted to it
  (section 4.4, \<^emph>\<open>enqueue\<close>: first in, first out).\<close>

definition player_enqueue :: "byte list \<Rightarrow> player \<Rightarrow> player" where
  "player_enqueue bytes p = p\<lparr>queue := queue p @ [bytes]\<rparr>"

text \<open>Modelled from the spec: what the missing worklet does with the command
  \<^verbatim>\<open>endOfAudio\<close> (section 4.4, \<^emph>\<open>interrupt\<close>).\<close>

definition player_endOfAudio :: "player \<Rightarrow> player" where
  "player_endOfAudio p = p\<lparr>queue := [], playing := None\<rparr>"

text \<open>
  The first sixteen fields are the component's state and refs under their own names.
  The others describe the host: objects are numbered from \<open>nextObject\<close>;
  \<open>eventSources\<close> lists every \<^verbatim>\<open>EventSource\<close> created with the \<^verbatim>\<open>is_audio\<close> flag of
  its URL, \<open>closedSources\<close> every \<^verbatim>\<open>close()\<close> of one; \<open>requests\<close> lists the bodies
  posted to the send endpoint; \<open>intervals\<close> the running interval timers; \<open>players\<close>
  the worklet behind each player node; \<open>stoppedStreams\<close> and \<open>closedContexts\<close> the
  microphone streams stopped and the audio contexts closed.
  The last three fields are what closures hold: \<open>captured_isConnected\<close> is the
  \<^verbatim>\<open>isConnected\<close> of the render whose \<^verbatim>\<open>audioRecorderHandler\<close> the recorder node calls,
  \<open>captured_isMuted\<close> the \<^verbatim>\<open>isMuted\<close> of the render whose \<^verbatim>\<open>connectToServer\<close> made the
  handlers of the event source, and \<open>deferred\<close> the updaters of the stream handler that
  React has not run yet, each with the number of entries it will see and the text it
  appends.
\<close>

record page =
  messages :: "message list"
  inputValue :: string
  isConnected :: bool
  isVoiceEnabled :: bool
  isRecording :: bool
  isMuted :: bool
  isTyping :: bool
  eventSourceRef :: "nat option"
  currentMessageIdRef :: "string option"
  audioPlayerNodeRef :: "nat option"
  audioPlayerContextRef :: "nat option"
  audioRecorderNodeRef :: "nat option"
  audioRecorderContextRef :: "nat option"
  micStreamRef :: "nat option"
  audioBufferRef :: "byte list list"
  bufferTimerRef :: "nat option"
  nextObject :: nat
  eventSources :: "(nat \<times> bool) list"
  closedSources :: "nat list"
  requests :: "outbound list"
  intervals :: "nat list"
  players :: "nat \<Rightarrow> player"
  stoppedStreams :: "nat list"
  closedContexts :: "nat list"
  captured_isConnected :: bool
  captured_isMuted :: bool
  deferred :: "(nat \<times> json) list"

datatype js_error =
  SyntaxError | TypeError | InvalidCharacterError | InvalidStateError
  | WorkletError | MediaError

text \<open>\<^verbatim>\<open>Date.now().toString()\<close>: the decimal digits of the clock reading.\<close>

function decimal :: "nat \<Rightarrow> string" where
  "decimal n =
     (if n < 10 then [char_of (48 + n)] else decimal (n div 10) @ [char_of (48 + n mod 10)])"
  by pat_completeness auto
termination
  by (relation "measure id") auto

declare decimal.simps [simp del]

text \<open>The leading pictograph of each fixed notice lies outside the code units of
  \<^typ>\<open>string\<close> and is left out of the texts below.\<close>

definition notice :: "nat \<Rightarrow> string \<Rightarrow> message" where
  "notice now text =
     \<lparr>msg_id = decimal now, content = JStr text, sender = Ai, timestamp = now\<rparr>"

definition initial :: "nat \<Rightarrow> page" where
  "initial now =
     \<lparr>messages =
        [\<lparr>msg_id = ''1'',
          content = JStr (''Hello! I'' @ [CHR 0x27] @ ''m your SkillBridge AI assistant. I''
            @ [CHR 0x27] @ ''m here to help you with skill development, mentorship, ''
            @ ''learning paths, and connecting with the right opportunities. ''
            @ ''How can I assist you today?''),
          sender = Ai, timestamp = now\<rparr>],
      inputValue = [], isConnected = False, isVoiceEnabled = False, isRecording = False,
      isMuted = False, isTyping = False, eventSourceRef = None, currentMessageIdRef = None,
      audioPlayerNodeRef = None, audioPlayerContextRef = None, audioRecorderNodeRef = None,
      audioRecorderContextRef = None, micStreamRef = None, audioBufferRef = [],
      bufferTimerRef = None, nextObject = 1, eventSources = [], closedSources = [],
      requests = [], intervals = [], players = (\<lambda>n. new_player), stoppedStreams = [],
      closedContexts = [], captured_isConnected = False, captured_isMuted = False,
      deferred = []\<rparr>"

subsection \<open>Capture: the recorder handler and the flush\<close>

text \<open>\<^verbatim>\<open>audioRecorderHandler\<close>. \<^verbatim>\<open>setInterval\<close> gives a fresh timer.\<close>

definition audioRecorderHandler :: "page \<Rightarrow> 16 word list \<Rightarrow> page" where
  "audioRecorderHandler s pcmData =
     (let samples = pcmData
      in if exceeds (rms samples) 100
         then let s1 = s\<lparr>audioBufferRef := audioBufferRef s @ [Uint8Array pcmData]\<rparr>
              in if bufferTimerRef s1 = None
                 then s1\<lparr>bufferTimerRef := Some (nextObject s1),
                         intervals := intervals s1 @ [nextObject s1],
                         nextObject := nextObject s1 + 1\<rparr>
                 else s1
         else s)"

text \<open>The two loops of \<^verbatim>\<open>sendBufferedAudio\<close> over the pending chunks: the total length,
  and the copy of each chunk at its offset (\<^verbatim>\<open>combinedBuffer.set(chunk, offset)\<close>).\<close>

fun totalLength_loop :: "byte list list \<Rightarrow> nat \<Rightarrow> nat" where
  "totalLength_loop [] totalLength = totalLength"
| "totalLength_loop (chunk # rest) totalLength = totalLength_loop rest (totalLength + length chunk)"

definition set_at :: "byte list \<Rightarrow> byte list \<Rightarrow> nat \<Rightarrow> byte list" where
  "set_at buffer chunk offset =
     take offset buffer @ chunk @ drop (offset + length chunk) buffer"

fun combine_loop :: "byte list list \<Rightarrow> nat \<Rightarrow> byte list \<Rightarrow> byte list" where
  "combine_loop [] offset combinedBuffer = combinedBuffer"
| "combine_loop (chunk # rest) offset combinedBuffer =
     combine_loop rest (offset + length chunk) (set_at combinedBuffer chunk offset)"

definition combined :: "byte list list \<Rightarrow> byte list" where
  "combined chunks = combine_loop chunks 0 (replicate (totalLength_loop chunks 0) 0)"

text \<open>\<^verbatim>\<open>sendBufferedAudio\<close>. Its first argument is the \<^verbatim>\<open>isConnected\<close> of the render that
  created the closure which runs. The request is issued under the two tests of the
  source; its outcome only decides which line is written to the console.\<close>

definition sendBufferedAudio :: "bool \<Rightarrow> page \<Rightarrow> page" where
  "sendBufferedAudio isConnected_seen s =
     (if length (audioBufferRef s) = 0 then s
      else let combinedBuffer = combined (audioBufferRef s);
               s1 = (if isConnected_seen \<and> length combinedBuffer > 0
                     then s\<lparr>requests := requests s @
                            [\<lparr>body_mime_type = ''audio/pcm'',
                              body_data = arrayBufferToBase64 combinedBuffer\<rparr>]\<rparr>
                     else s)
           in s1\<lparr>audioBufferRef := []\<rparr>)"

text \<open>A tick of a running interval. \<^verbatim>\<open>setInterval(sendBufferedAudio, 200)\<close> is called in
  \<^verbatim>\<open>audioRecorderHandler\<close>, so the interval runs the \<^verbatim>\<open>sendBufferedAudio\<close> of the render
  that created the handler the recorder node calls.\<close>

definition timer_tick :: "page \<Rightarrow> page" where
  "timer_tick s =
     (if intervals s = [] then s else sendBufferedAudio (captured_isConnected s) s)"

subsection \<open>The connection and its callbacks\<close>

datatype health = HealthOk | HealthNotOk | HealthUnreachable

text \<open>\<^verbatim>\<open>connectToServer\<close>. Both failures of the health check end in the same
  \<^verbatim>\<open>Error\<close>, whose message the outer \<^verbatim>\<open>catch\<close> puts into a notice. The handlers it
  gives to a new event source are closures of its render: they keep its \<^verbatim>\<open>isMuted\<close>.\<close>

definition close_eventSource :: "page \<Rightarrow> page" where
  "close_eventSource s =
     (case eventSourceRef s of
        None \<Rightarrow> s
      | Some es \<Rightarrow> s\<lparr>closedSources := closedSources s @ [es]\<rparr>)"

definition connectToServer :: "page \<Rightarrow> bool \<Rightarrow> health \<Rightarrow> nat \<Rightarrow> page" where
  "connectToServer s audioMode healthResponse now =
     (let s1 = close_eventSource s
      in case healthResponse of
           HealthOk \<Rightarrow>
             s1\<lparr>eventSourceRef := Some (nextObject s1),
                eventSources := eventSources s1 @ [(nextObject s1, audioMode)],
                nextObject := nextObject s1 + 1,
                captured_isMuted := isMuted s1\<rparr>
         | _ \<Rightarrow>
             s1\<lparr>isConnected := False,
                messages := messages s1 @
                  [notice now (''Failed to connect to server. '' @
                     ''Server not reachable. Make sure your Python server is running on ''
                     @ ''http://127.0.0.1:8000'')]\<rparr>)"

text \<open>The mode of the session: the flag of the event source the page holds.\<close>

definition audioMode_of :: "page \<Rightarrow> bool option" where
  "audioMode_of s =
     (case eventSourceRef s of None \<Rightarrow> None | Some es \<Rightarrow> map_of (eventSources s) es)"

definition onopen :: "page \<Rightarrow> bool \<Rightarrow> nat \<Rightarrow> page" where
  "onopen s audioMode now =
     (let s1 = s\<lparr>isConnected := True\<rparr>
      in if \<not> audioMode
         then s1\<lparr>messages := messages s1 @
                   [notice now ''Connected to SkillBridge AI (Text Mode)'']\<rparr>
         else s1)"

definition onerror :: "page \<Rightarrow> nat \<Rightarrow> page" where
  "onerror s now =
     s\<lparr>isConnected := False,
       messages := messages s @
         [notice now ''Connection lost. Please check server and try reconnecting.'']\<rparr>"

text \<open>
  \<^verbatim>\<open>eventSource.onmessage\<close>. The argument is the result of \<^verbatim>\<open>JSON.parse(event.data)\<close>,
  \<open>None\<close> when it throws. The body of the \<^verbatim>\<open>try\<close> gives the exception thrown, if any,
  the state reached and the lines written to the console; \<open>rnd\<close> is the string
  \<^verbatim>\<open>Math.random().toString(36).substring(7)\<close>.
\<close>

datatype level = Log | Error

type_synonym console_line = "level \<times> string"

definition on_turn_complete :: "page \<Rightarrow> page" where
  "on_turn_complete s = s\<lparr>isTyping := False, currentMessageIdRef := None\<rparr>"

definition on_interrupted :: "page \<Rightarrow> page" where
  "on_interrupted s =
     (let s1 = s\<lparr>isTyping := False\<rparr>
      in case audioPlayerNodeRef s1 of
           None \<Rightarrow> s1
         | Some node \<Rightarrow> s1\<lparr>players := (players s1)(node := player_endOfAudio (players s1 node))\<rparr>)"

text \<open>The two branches for audio and for text. Where \<^verbatim>\<open>data.data\<close> is used it has been
  found truthy, so the property is there. The \<^verbatim>\<open>isMuted\<close> tested is the one the handler
  captured. In the branch for text the updater of an open message is queued, not run.\<close>

definition on_audio :: "coercions \<Rightarrow> page \<Rightarrow> json \<Rightarrow> js_error option \<times> page \<times> console_line list" where
  "on_audio H s data =
     (case audioPlayerNodeRef s of
        Some node \<Rightarrow>
          if property data ''mime_type'' = Some (JStr ''audio/pcm'')
               \<and> truthy (property data ''data'') \<and> \<not> captured_isMuted s
          then (case base64ToArray (js_string H (the (property data ''data''))) of
                  None \<Rightarrow> (Some InvalidCharacterError, s, [(Log, ''Received audio data:'')])
                | Some audioBuffer \<Rightarrow>
                    (None,
                     s\<lparr>players := (players s)(node := player_enqueue audioBuffer (players s node))\<rparr>,
                     [(Log, ''Received audio data:'')]))
          else (None, s, [])
      | None \<Rightarrow> (None, s, []))"

definition on_text :: "page \<Rightarrow> string \<Rightarrow> nat \<Rightarrow> json \<Rightarrow> page" where
  "on_text s rnd now data =
     (if property data ''mime_type'' = Some (JStr ''text/plain'') \<and> truthy (property data ''data'')
      then let s1 = s\<lparr>isTyping := True\<rparr>
           in case currentMessageIdRef s1 of
                None \<Rightarrow>
                  s1\<lparr>currentMessageIdRef := Some rnd,
                     messages := messages s1 @
                       [\<lparr>msg_id = rnd, content = the (property data ''data''),
                         sender = Ai, timestamp = now\<rparr>]\<rparr>
              | Some current \<Rightarrow>
                  s1\<lparr>deferred := deferred s1 @
                       [(length (messages s1), the (property data ''data''))]\<rparr>
      else s)"

text \<open>
  The updater \<^verbatim>\<open>prev.map(msg => msg.id === currentMessageIdRef.current ? {...msg, content:
  msg.content + data.data} : msg)\<close>, run by React: \<open>current\<close> is the ref when it runs
  (no id equals \<^verbatim>\<open>null\<close>), and \<^verbatim>\<open>prev\<close> is the first \<open>seen\<close> entries, those queued before
  the updater.
\<close>

definition run_updater ::
  "coercions \<Rightarrow> string option \<Rightarrow> message list \<Rightarrow> nat \<times> json \<Rightarrow> message list" where
  "run_updater H current msgs u =
     (case u of (seen, text) \<Rightarrow>
        map (\<lambda>msg. if Some (msg_id msg) = current
                    then msg\<lparr>content := js_plus H (content msg) text\<rparr>
                    else msg)
            (take seen msgs)
        @ drop seen msgs)"

text \<open>React renders the component: the updaters kept are run in their order, with the
  ref as it is now.\<close>

definition render :: "coercions \<Rightarrow> page \<Rightarrow> page" where
  "render H s =
     s\<lparr>messages := foldl (run_updater H (currentMessageIdRef s)) (messages s) (deferred s),
       deferred := []\<rparr>"

definition onmessage_try ::
  "coercions \<Rightarrow> page \<Rightarrow> string \<Rightarrow> nat \<Rightarrow> json option
     \<Rightarrow> js_error option \<times> page \<times> console_line list" where
  "onmessage_try H s rnd now parsed =
     (case parsed of
        None \<Rightarrow> (Some SyntaxError, s, [])
      | Some data \<Rightarrow>
          if data = JNull then (Some TypeError, s, [(Log, ''Received data:'')])
          else if property data ''turn_complete'' = Some (JBool True)
          then (None, on_turn_complete s, [(Log, ''Received data:''), (Log, ''Turn completed'')])
          else if property data ''interrupted'' = Some (JBool True)
          then (None, on_interrupted s, [(Log, ''Received data:''), (Log, ''Turn interrupted'')])
          else (case on_audio H s data of
                  (Some e, s1, lines) \<Rightarrow> (Some e, s1, (Log, ''Received data:'') # lines)
                | (None, s1, lines) \<Rightarrow>
                    (None, on_text s1 rnd now data, (Log, ''Received data:'') # lines)))"

definition onmessage ::
  "coercions \<Rightarrow> page \<Rightarrow> string \<Rightarrow> nat \<Rightarrow> json option \<Rightarrow> page \<times> console_line list" where
  "onmessage H s rnd now parsed =
     (case onmessage_try H s rnd now parsed of
        (None, s1, lines) \<Rightarrow> (s1, lines)
      | (Some error, s1, lines) \<Rightarrow> (s1, lines @ [(Error, ''Error parsing message:'')]))"

text \<open>A stream of events, each with the random string and the clock reading of its
  arrival, handled in order.\<close>

fun process :: "coercions \<Rightarrow> page \<Rightarrow> (string \<times> nat \<times> json option) list \<Rightarrow> page" where
  "process H s [] = s"
| "process H s ((rnd, now, parsed) # events) =
     process H (fst (onmessage H s rnd now parsed)) events"

subsection \<open>Sending a text message\<close>

text \<open>\<^verbatim>\<open>String.prototype.trim\<close> on code units below 256.\<close>

definition js_whitespace :: "char \<Rightarrow> bool" where
  "js_whitespace c \<longleftrightarrow> (of_char c :: nat) \<in> {9, 10, 11, 12, 13, 32, 160}"

definition trim :: "string \<Rightarrow> string" where
  "trim s = rev (dropWhile js_whitespace (rev (dropWhile js_whitespace s)))"

datatype response = ResponseOk | ResponseNotOk | Rejected

text \<open>
  \<^verbatim>\<open>sendMessage\<close> up to its \<^verbatim>\<open>await fetch(...)\<close>: \<open>None\<close> is the early return;
  otherwise the user's message is appended and the request issued. Then the part that
  runs when the request has settled.
\<close>

definition sendMessage_request :: "page \<Rightarrow> nat \<Rightarrow> page option" where
  "sendMessage_request s now =
     (if trim (inputValue s) = [] \<or> \<not> isConnected s then None
      else Some (s\<lparr>messages := messages s @
                     [\<lparr>msg_id = decimal now, content = JStr (inputValue s),
                       sender = User, timestamp = now\<rparr>],
                   requests := requests s @
                     [\<lparr>body_mime_type = ''text/plain'', body_data = inputValue s\<rparr>]\<rparr>))"

definition sendMessage_settled :: "page \<Rightarrow> response \<Rightarrow> nat \<Rightarrow> page" where
  "sendMessage_settled s response now =
     (case response of
        ResponseOk \<Rightarrow> s\<lparr>inputValue := []\<rparr>
      | _ \<Rightarrow> s\<lparr>messages := messages s @
                  [notice now ''Failed to send message. Please try again.'']\<rparr>)"

definition sendMessage :: "page \<Rightarrow> nat \<Rightarrow> response \<Rightarrow> nat \<Rightarrow> page" where
  "sendMessage s now response later =
     (case sendMessage_request s now of
        None \<Rightarrow> s
      | Some s1 \<Rightarrow> sendMessage_settled s1 response later)"

subsection \<open>Starting and stopping a voice conversation\<close>

text \<open>
  \<^verbatim>\<open>startAudioPlayerWorklet\<close> and \<^verbatim>\<open>startAudioRecorderWorklet\<close> create host objects or
  fail (the module does not load; the microphone is refused). The result is the new
  handles and the state of the host. The recorder node is given the
  \<^verbatim>\<open>audioRecorderHandler\<close> of the render in which the user asked for voice, where
  \<^verbatim>\<open>isConnected\<close> has its current value.
\<close>

datatype started = Started | Fails js_error

definition startAudioPlayerWorklet :: "page \<Rightarrow> started \<Rightarrow> js_error + (nat \<times> nat) \<times> page" where
  "startAudioPlayerWorklet s outcome =
     (case outcome of
        Fails e \<Rightarrow> Inl e
      | Started \<Rightarrow>
          (let audioContext = nextObject s; audioPlayerNode = nextObject s + 1
           in Inr ((audioPlayerNode, audioContext),
                   s\<lparr>nextObject := nextObject s + 2,
                     players := (players s)(audioPlayerNode := new_player)\<rparr>)))"

definition startAudioRecorderWorklet ::
  "page \<Rightarrow> started \<Rightarrow> js_error + (nat \<times> nat \<times> nat) \<times> page" where
  "startAudioRecorderWorklet s outcome =
     (case outcome of
        Fails e \<Rightarrow> Inl e
      | Started \<Rightarrow>
          (let audioRecorderContext = nextObject s; micStream = nextObject s + 1;
               audioRecorderNode = nextObject s + 2
           in Inr ((audioRecorderNode, audioRecorderContext, micStream),
                   s\<lparr>nextObject := nextObject s + 3,
                     captured_isConnected := isConnected s\<rparr>)))"

definition voice_start_failed :: "page \<Rightarrow> nat \<Rightarrow> page" where
  "voice_start_failed s now =
     s\<lparr>messages := messages s @
          [notice now (''Failed to start voice conversation. ''
             @ ''Please check microphone permissions and try again.'')]\<rparr>"

text \<open>\<^verbatim>\<open>startVoiceConversation\<close>: \<open>now\<close> is the clock when \<^verbatim>\<open>connectToServer\<close> writes
  its notice, \<open>later\<close> when this function writes its own.\<close>

definition startVoiceConversation ::
  "page \<Rightarrow> started \<Rightarrow> started \<Rightarrow> health \<Rightarrow> nat \<Rightarrow> nat \<Rightarrow> page" where
  "startVoiceConversation s player recorder healthResponse now later =
     (case startAudioPlayerWorklet s player of
        Inl error \<Rightarrow> voice_start_failed s later
      | Inr ((playerNode, playerContext), s1) \<Rightarrow>
          (let s2 = s1\<lparr>audioPlayerNodeRef := Some playerNode,
                       audioPlayerContextRef := Some playerContext\<rparr>
           in case startAudioRecorderWorklet s2 recorder of
                Inl error \<Rightarrow> voice_start_failed s2 later
              | Inr ((recorderNode, recorderContext, micStream), s3) \<Rightarrow>
                  (let s4 = s3\<lparr>audioRecorderNodeRef := Some recorderNode,
                               audioRecorderContextRef := Some recorderContext,
                               micStreamRef := Some micStream,
                               isVoiceEnabled := True, isRecording := True\<rparr>;
                       s5 = close_eventSource s4;
                       s6 = connectToServer s5 True healthResponse now
                   in s6\<lparr>messages := messages s6 @
                          [notice later (''Voice conversation started - ''
                             @ ''Speak naturally, AI is listening...'')]\<rparr>)))"

text \<open>\<^verbatim>\<open>stopVoiceConversation\<close>, in the steps its comments name. It is started by a
  click, so the \<^verbatim>\<open>sendBufferedAudio\<close> it calls is that of the current render. Closing an
  audio context that is closed already is rejected by the host; the exception then
  leaves the function.\<close>

definition stop_flags :: "page \<Rightarrow> page" where
  "stop_flags s = s\<lparr>isRecording := False, isVoiceEnabled := False\<rparr>"

definition stop_timer :: "page \<Rightarrow> page" where
  "stop_timer s =
     (case bufferTimerRef s of
        None \<Rightarrow> s
      | Some timer \<Rightarrow> s\<lparr>intervals := removeAll timer (intervals s), bufferTimerRef := None\<rparr>)"

definition stop_flush :: "page \<Rightarrow> page" where
  "stop_flush s =
     (if length (audioBufferRef s) > 0 then sendBufferedAudio (isConnected s) s else s)"

definition stop_microphone :: "page \<Rightarrow> page" where
  "stop_microphone s =
     (case micStreamRef s of
        None \<Rightarrow> s
      | Some stream \<Rightarrow> s\<lparr>stoppedStreams := stoppedStreams s @ [stream], micStreamRef := None\<rparr>)"

definition close_player_context :: "page \<Rightarrow> js_error + page" where
  "close_player_context s =
     (case audioPlayerContextRef s of
        None \<Rightarrow> Inr s
      | Some context \<Rightarrow>
          if context \<in> set (closedContexts s) then Inl InvalidStateError
          else Inr (s\<lparr>closedContexts := closedContexts s @ [context],
                      audioPlayerContextRef := None\<rparr>))"

definition close_recorder_context :: "page \<Rightarrow> js_error + page" where
  "close_recorder_context s =
     (case audioRecorderContextRef s of
        None \<Rightarrow> Inr s
      | Some context \<Rightarrow>
          if context \<in> set (closedContexts s) then Inl InvalidStateError
          else Inr (s\<lparr>closedContexts := closedContexts s @ [context],
                      audioRecorderContextRef := None\<rparr>))"

definition stop_reconnect :: "page \<Rightarrow> health \<Rightarrow> nat \<Rightarrow> nat \<Rightarrow> page" where
  "stop_reconnect s healthResponse now later =
     (let s1 = s\<lparr>audioPlayerNodeRef := None, audioRecorderNodeRef := None\<rparr>;
          s2 = close_eventSource s1;
          s3 = connectToServer s2 False healthResponse now
      in s3\<lparr>messages := messages s3 @
             [notice later ''Voice conversation stopped - Switched to text mode'']\<rparr>)"

definition stopVoiceConversation :: "page \<Rightarrow> health \<Rightarrow> nat \<Rightarrow> nat \<Rightarrow> js_error + page" where
  "stopVoiceConversation s healthResponse now later =
     (case close_player_context (stop_microphone (stop_flush (stop_timer (stop_flags s)))) of
        Inl error \<Rightarrow> Inl error
      | Inr s1 \<Rightarrow>
          (case close_recorder_context s1 of
             Inl error \<Rightarrow> Inl error
           | Inr s2 \<Rightarrow> Inr (stop_reconnect s2 healthResponse now later)))"

subsection \<open>Notions used in the statements\<close>

text \<open>The playback queue of the page: that of the player node it holds, if any.\<close>

definition playback_queue :: "page \<Rightarrow> byte list list" where
  "playback_queue s =
     (case audioPlayerNodeRef s of None \<Rightarrow> [] | Some node \<Rightarrow> queue (players s node))"

definition now_playing :: "page \<Rightarrow> byte list option" where
  "now_playing s =
     (case audioPlayerNodeRef s of None \<Rightarrow> None | Some node \<Rightarrow> playing (players s node))"

text \<open>An event passes one of the four tests of the handler.\<close>

definition accepted :: "json \<Rightarrow> bool" where
  "accepted v \<longleftrightarrow>
     property v ''turn_complete'' = Some (JBool True)
     \<or> property v ''interrupted'' = Some (JBool True)
     \<or> (property v ''mime_type'' = Some (JStr ''audio/pcm'') \<and> truthy (property v ''data''))
     \<or> (property v ''mime_type'' = Some (JStr ''text/plain'') \<and> truthy (property v ''data''))"

text \<open>
  Following the specification (section 6): an event is a JSON object of one of the
  shapes \<^verbatim>\<open>{turn_complete: true}\<close>, \<^verbatim>\<open>{interrupted: true}\<close>,
  \<^verbatim>\<open>{mime_type: "text/plain", data: string}\<close>, \<^verbatim>\<open>{mime_type: "audio/pcm", data: base64}\<close>.
  Read generously: further properties are allowed and the base64 text is any string.
\<close>

definition is_string :: "json option \<Rightarrow> bool" where
  "is_string v = (case v of Some (JStr text) \<Rightarrow> True | _ \<Rightarrow> False)"

definition event_shape :: "json \<Rightarrow> bool" where
  "event_shape v \<longleftrightarrow>
     property v ''turn_complete'' = Some (JBool True)
     \<or> property v ''interrupted'' = Some (JBool True)
     \<or> (property v ''mime_type'' = Some (JStr ''text/plain'') \<and> is_string (property v ''data''))
     \<or> (property v ''mime_type'' = Some (JStr ''audio/pcm'') \<and> is_string (property v ''data''))"

subsection \<open>Runs of the page used in the examples\<close>

text \<open>Some coercions, to have closed terms: no run below reaches them, all data being
  strings where a string is used.\<close>

definition host0 :: coercions where
  "host0 = \<lparr>ToString = (\<lambda>v. []), Plus_of = (\<lambda>a b. a)\<rparr>"

definition connected_text :: page where
  "connected_text = onopen (connectToServer (initial 0) False HealthOk 1) False 2"

definition in_voice :: page where
  "in_voice = onopen (startVoiceConversation connected_text Started Started HealthOk 3 4) True 5"

definition loud_frame :: "16 word list" where
  "loud_frame = [1000, - 1000]"

definition with_pending_audio :: page where
  "with_pending_audio = audioRecorderHandler in_voice loud_frame"

text \<open>The stream fails during the voice conversation, the user connects again (the
  button connects in text mode), and a loud frame is captured.\<close>

definition voice_on_text_stream :: page where
  "voice_on_text_stream =
     audioRecorderHandler
       (onopen (connectToServer (onerror in_voice 6) False HealthOk 7) False 8) loud_frame"

text \<open>The stream fails during the voice conversation and a loud frame is captured:
  the page shows that it is disconnected, the recorder and its timer go on.\<close>

definition voice_after_error :: page where
  "voice_after_error = audioRecorderHandler (onerror in_voice 6) loud_frame"

subsection \<open>Auxiliary notion for the base64 proofs\<close>

definition decodes_to :: "string \<Rightarrow> nat list \<Rightarrow> string \<Rightarrow> bool" where
  "decodes_to enc ks s \<longleftrightarrow> strip1 (strip1 enc) = map b64_char ks \<and> (\<forall>k \<in> set ks. k < 64)
     \<and> length ks mod 4 \<noteq> 1 \<and> decode_sextets ks = s"

section \<open>Properties\<close>

subsection \<open>Base64 round trip\<close>

lemma index_of_nth: "distinct xs \<Longrightarrow> k < length xs \<Longrightarrow> index_of (xs ! k) xs = Some k"
proof (induction xs arbitrary: k)
  case Nil
  then show ?case by simp
next
  case (Cons y ys)
  show ?case
  proof (cases k)
    case 0
    then show ?thesis by simp
  next
    case (Suc j)
    with Cons.prems have "ys ! j \<noteq> y" and "j < length ys" and "distinct ys"
      by auto
    with Cons.IH [of j] Suc show ?thesis by simp
  qed
qed

lemma distinct_b64_alphabet: "distinct b64_alphabet"
  by (simp add: b64_alphabet_def)

lemma length_b64_alphabet: "length b64_alphabet = 64"
  by (simp add: b64_alphabet_def)

lemma b64_index_char: "k < 64 \<Longrightarrow> b64_index (b64_char k) = Some k"
  by (simp add: b64_index_def b64_char_def index_of_nth distinct_b64_alphabet length_b64_alphabet)

lemma b64_alphabet_plain: "\<forall>c \<in> set b64_alphabet. \<not> ascii_whitespace c \<and> c \<noteq> CHR ''=''"
  by (simp add: b64_alphabet_def ascii_whitespace_def)

lemma b64_char_plain: "k < 64 \<Longrightarrow> \<not> ascii_whitespace (b64_char k) \<and> b64_char k \<noteq> CHR ''=''"
  using b64_alphabet_plain nth_mem [of k b64_alphabet]
  by (simp add: b64_char_def length_b64_alphabet)

lemma eq_not_whitespace: "\<not> ascii_whitespace CHR ''=''"
  by (simp add: ascii_whitespace_def)


lemma those_opt_index:
  "\<forall>k \<in> set ks. k < 64 \<Longrightarrow> those_opt (map (b64_index \<circ> b64_char) ks) = Some ks"
  by (induction ks) (simp_all add: b64_index_char)

lemma strip1_append: "ys \<noteq> [] \<Longrightarrow> strip1 (xs @ ys) = xs @ strip1 ys"
  by (simp add: strip1_def butlast_append)

lemma strip1_nonempty: "2 \<le> length ys \<Longrightarrow> strip1 ys \<noteq> []"
  by (cases ys rule: rev_cases) (auto simp: strip1_def)

lemma strip2_append: "2 \<le> length ys \<Longrightarrow> strip1 (strip1 (xs @ ys)) = xs @ strip1 (strip1 ys)"
proof -
  assume len: "2 \<le> length ys"
  then have "ys \<noteq> []" by auto
  then have "strip1 (xs @ ys) = xs @ strip1 ys" by (rule strip1_append)
  moreover have "strip1 ys \<noteq> []" using len by (rule strip1_nonempty)
  ultimately show ?thesis by (simp add: strip1_append)
qed

lemma btoa_length: "length (btoa s) mod 4 = 0"
  by (induction s rule: btoa.induct) (simp_all add: Let_def)

lemma btoa_long: "s \<noteq> [] \<Longrightarrow> 4 \<le> length (btoa s)"
  by (induction s rule: btoa.induct) (simp_all add: Let_def)

lemma sextet_bounds:
  fixes x y z :: nat
  assumes "x < 256" "y < 256" "z < 256"
  shows "x div 4 < 64" "x mod 4 * 16 < 64" "x mod 4 * 16 + y div 16 < 64"
    "y mod 16 * 4 < 64" "y mod 16 * 4 + z div 64 < 64" "z mod 64 < 64"
  using assms by arith+

lemmas char_sextets =
  sextet_bounds [OF nat_of_char_less_256 nat_of_char_less_256 nat_of_char_less_256]

lemma btoa_no_whitespace: "filter (\<lambda>c. \<not> ascii_whitespace c) (btoa s) = btoa s"
  by (induction s rule: btoa.induct)
    (simp_all add: Let_def b64_char_plain eq_not_whitespace char_sextets)

lemma decode_first:
  fixes x y :: nat
  assumes "y < 256"
  shows "char_of (x div 4 * 4 + (x mod 4 * 16 + y div 16) div 16) = char_of x"
proof -
  from assms have "(x mod 4 * 16 + y div 16) div 16 = x mod 4" by simp
  then show ?thesis by simp
qed

lemma decode_first_pad:
  fixes x :: nat
  shows "char_of (x div 4 * 4 + (x mod 4 * 16) div 16) = char_of x"
  by simp

lemma decode_second:
  fixes x y z :: nat
  assumes "y < 256" "z < 256"
  shows "char_of ((x mod 4 * 16 + y div 16) mod 16 * 16 + (y mod 16 * 4 + z div 64) div 4) = char_of y"
proof -
  from assms have "(y mod 16 * 4 + z div 64) div 4 = y mod 16" by simp
  moreover from assms have "(x mod 4 * 16 + y div 16) mod 16 = y div 16" by simp
  ultimately show ?thesis by simp
qed

lemma decode_second_pad:
  fixes x y :: nat
  assumes "y < 256"
  shows "char_of ((x mod 4 * 16 + y div 16) mod 16 * 16 + (y mod 16 * 4) div 4) = char_of y"
  using decode_second [OF assms, of 0 x] by simp

lemma decode_third:
  fixes y z :: nat
  assumes "z < 256"
  shows "char_of ((y mod 16 * 4 + z div 64) mod 4 * 64 + z mod 64) = char_of z"
proof -
  from assms have "(y mod 16 * 4 + z div 64) mod 4 = z div 64" by simp
  then show ?thesis by simp
qed

lemma decode_chunk:
  fixes x y z :: nat
  assumes "x < 256" "y < 256" "z < 256"
  shows "decode_sextets (x div 4 # (x mod 4 * 16 + y div 16) # (y mod 16 * 4 + z div 64) # z mod 64 # ks)
    = char_of x # char_of y # char_of z # decode_sextets ks"
  by (simp only: decode_sextets.simps decode_first [OF assms(2)] decode_second [OF assms(2,3)]
      decode_third [OF assms(3)] append_Cons append_Nil)

lemma decode_rest2:
  fixes x y :: nat
  assumes "x < 256" "y < 256"
  shows "decode_sextets [x div 4, x mod 4 * 16 + y div 16, y mod 16 * 4] = [char_of x, char_of y]"
  by (simp only: decode_sextets.simps decode_first [OF assms(2)] decode_second_pad [OF assms(2)])

lemma decode_rest1:
  fixes x :: nat
  shows "decode_sextets [x div 4, x mod 4 * 16] = [char_of x]"
  by (simp only: decode_sextets.simps decode_first_pad)

lemma decode_sextets_Nil: "decode_sextets ks = [] \<Longrightarrow> length ks mod 4 \<noteq> 1 \<Longrightarrow> ks = []"
  by (cases ks rule: decode_sextets.cases) auto

lemma decodes_to_1:
  "decodes_to (btoa [a]) [(of_char a :: nat) div 4, (of_char a :: nat) mod 4 * 16] [a]"
  unfolding decodes_to_def
  by (simp add: strip1_def Let_def char_sextets decode_rest1 del: decode_sextets.simps)

lemma decodes_to_2:
  "decodes_to (btoa [a, b]) [(of_char a :: nat) div 4,
     (of_char a :: nat) mod 4 * 16 + (of_char b :: nat) div 16, (of_char b :: nat) mod 16 * 4] [a, b]"
  unfolding decodes_to_def
  by (simp add: strip1_def Let_def b64_char_plain char_sextets decode_rest2 del: decode_sextets.simps)

lemma decodes_to_3:
  assumes "decodes_to (btoa rest) ks rest"
  shows "decodes_to (btoa (a # b # c # rest)) ((of_char a :: nat) div 4 #
     ((of_char a :: nat) mod 4 * 16 + (of_char b :: nat) div 16) #
     ((of_char b :: nat) mod 16 * 4 + (of_char c :: nat) div 64) # (of_char c :: nat) mod 64 # ks)
     (a # b # c # rest)"
proof -
  let ?hd = "[(of_char a :: nat) div 4, (of_char a :: nat) mod 4 * 16 + (of_char b :: nat) div 16,
      (of_char b :: nat) mod 16 * 4 + (of_char c :: nat) div 64, (of_char c :: nat) mod 64]"
  from assms have ks: "strip1 (strip1 (btoa rest)) = map b64_char ks"
    "\<forall>k \<in> set ks. k < 64" "length ks mod 4 \<noteq> 1" "decode_sextets ks = rest"
    by (simp_all add: decodes_to_def)
  have split: "btoa (a # b # c # rest) = map b64_char ?hd @ btoa rest"
    by (simp add: Let_def)
  have last_plain: "b64_char ((of_char c :: nat) mod 64) \<noteq> CHR ''=''"
    by (simp add: b64_char_plain)
  have strip: "strip1 (strip1 (btoa (a # b # c # rest))) = map b64_char ?hd @ map b64_char ks"
  proof (cases "rest = []")
    case True
    with ks(3,4) have "ks = []" by (simp add: decode_sextets_Nil)
    with True last_plain show ?thesis
      by (simp add: strip1_def Let_def)
  next
    case False
    then have "2 \<le> length (btoa rest)" using btoa_long [of rest] by simp
    then show ?thesis
      unfolding split by (simp only: strip2_append ks(1))
  qed
  have dec: "decode_sextets (?hd @ ks) = a # b # c # rest"
    using decode_chunk [OF nat_of_char_less_256 nat_of_char_less_256 nat_of_char_less_256, of a b c ks]
    by (simp add: ks(4) del: decode_sextets.simps)
  show ?thesis
    unfolding decodes_to_def
    using strip dec ks(2,3) by (simp add: char_sextets del: decode_sextets.simps)
qed

lemma btoa_decodes: "\<exists>ks. decodes_to (btoa s) ks s"
proof (induction s rule: btoa.induct)
  case 1
  have "decodes_to (btoa []) [] []" by (simp add: decodes_to_def strip1_def)
  then show ?case ..
next
  case (2 a)
  show ?case using decodes_to_1 ..
next
  case (3 a b)
  show ?case using decodes_to_2 ..
next
  case (4 a b c rest)
  from 4 [OF refl refl refl] obtain ks where "decodes_to (btoa rest) ks rest" ..
  then have "decodes_to (btoa (a # b # c # rest)) ((of_char a :: nat) div 4 #
     ((of_char a :: nat) mod 4 * 16 + (of_char b :: nat) div 16) #
     ((of_char b :: nat) mod 16 * 4 + (of_char c :: nat) div 64) # (of_char c :: nat) mod 64 # ks)
     (a # b # c # rest)"
    by (rule decodes_to_3)
  then show ?case ..
qed

lemma atob_btoa: "atob (btoa s) = Some s"
proof -
  obtain ks where "decodes_to (btoa s) ks s"
    using btoa_decodes [of s] ..
  then have ks: "strip1 (strip1 (btoa s)) = map b64_char ks"
    "\<forall>k \<in> set ks. k < 64" "length ks mod 4 \<noteq> 1" "decode_sextets ks = s"
    by (simp_all add: decodes_to_def)
  have "strip_padding (filter (\<lambda>c. \<not> ascii_whitespace c) (btoa s)) = map b64_char ks"
    by (simp add: btoa_no_whitespace strip_padding_def btoa_length ks(1))
  then show ?thesis
    using ks by (simp add: atob_def those_opt_index)
qed

lemma arrayBufferToBase64_loop_eq:
  "i \<le> length bytes \<Longrightarrow>
     arrayBufferToBase64_loop bytes i binary = binary @ map fromCharCode (drop i bytes)"
proof (induction bytes i binary rule: arrayBufferToBase64_loop.induct)
  case (1 bytes i binary)
  show ?case
  proof (cases "i < length bytes")
    case True
    then have "drop i bytes = bytes ! i # drop (i + 1) bytes"
      by (simp add: Cons_nth_drop_Suc)
    with True 1 show ?thesis
      by (subst arrayBufferToBase64_loop.simps) simp
  next
    case False
    with 1 show ?thesis
      by (subst arrayBufferToBase64_loop.simps) simp
  qed
qed

lemma base64ToArray_loop_eq:
  "i \<le> length s \<Longrightarrow> length bytes = length s \<Longrightarrow>
     base64ToArray_loop s i bytes = take i bytes @ map charCodeAt (drop i s)"
proof (induction s i bytes rule: base64ToArray_loop.induct)
  case (1 s i bytes)
  show ?case
  proof (cases "i < length s")
    case True
    then have d: "drop i s = s ! i # drop (i + 1) s"
      by (simp add: Cons_nth_drop_Suc)
    from True 1 have "base64ToArray_loop s i bytes =
        take (i + 1) (bytes[i := charCodeAt (s ! i)]) @ map charCodeAt (drop (i + 1) s)"
      by (subst base64ToArray_loop.simps) simp
    also have "take (i + 1) (bytes[i := charCodeAt (s ! i)]) = take i bytes @ [charCodeAt (s ! i)]"
      using True 1(3) by (simp add: take_Suc_conv_app_nth)
    finally show ?thesis using d by simp
  next
    case False
    with 1 show ?thesis
      by (subst base64ToArray_loop.simps) simp
  qed
qed

lemma charCodeAt_fromCharCode: "charCodeAt (fromCharCode b) = b"
proof -
  have "unat b < 256" using unsigned_less [of b, where ?'a = nat] by simp
  then show ?thesis by (simp add: charCodeAt_def fromCharCode_def)
qed

text \<open>
  Claim C4. For every byte sequence \<open>b\<close>, decoding the base64 encoding of \<open>b\<close> gives
  \<open>b\<close> back: \<^verbatim>\<open>base64ToArray(arrayBufferToBase64(b))\<close> returns (it does not throw) and
  its result is \<open>b\<close>.
\<close>

theorem base64_round_trip: "base64ToArray (arrayBufferToBase64 b) = Some b"
proof -
  have enc: "arrayBufferToBase64 b = btoa (map fromCharCode b)"
    by (simp add: arrayBufferToBase64_def arrayBufferToBase64_loop_eq)
  have "base64ToArray_loop (map fromCharCode b) 0 (replicate (length b) 0)
      = map charCodeAt (map fromCharCode b)"
    by (simp add: base64ToArray_loop_eq)
  also have "\<dots> = b"
    by (simp add: charCodeAt_fromCharCode map_idI)
  finally show ?thesis
    by (simp add: base64ToArray_def enc atob_btoa)
qed

subsection \<open>Conversion to 16-bit PCM\<close>

lemma convertFloat32ToPCM_loop_eq:
  "i \<le> length xs \<Longrightarrow> length pcm = length xs \<Longrightarrow>
     convertFloat32ToPCM_loop xs i pcm =
       take i pcm @ map (\<lambda>v. ToInt16 (Math_max (- 32768) (Math_min 32767 (times_0x7fff v)))) (drop i xs)"
proof (induction xs i pcm rule: convertFloat32ToPCM_loop.induct)
  case (1 xs i pcm)
  let ?f = "\<lambda>v. ToInt16 (Math_max (- 32768) (Math_min 32767 (times_0x7fff v)))"
  show ?case
  proof (cases "i < length xs")
    case True
    then have d: "drop i xs = xs ! i # drop (i + 1) xs"
      by (simp add: Cons_nth_drop_Suc)
    from True 1 have "convertFloat32ToPCM_loop xs i pcm =
        take (i + 1) (pcm[i := ?f (xs ! i)]) @ map ?f (drop (i + 1) xs)"
      by (subst convertFloat32ToPCM_loop.simps) simp
    also have "take (i + 1) (pcm[i := ?f (xs ! i)]) = take i pcm @ [?f (xs ! i)]"
      using True 1(3) by (simp add: take_Suc_conv_app_nth)
    finally show ?thesis using d by simp
  next
    case False
    with 1 show ?thesis
      by (subst convertFloat32ToPCM_loop.simps) simp
  qed
qed

lemma convertFloat32ToPCM_map:
  "convertFloat32ToPCM xs =
     map (\<lambda>v. ToInt16 (Math_max (- 32768) (Math_min 32767 (times_0x7fff v)))) xs"
  by (simp add: convertFloat32ToPCM_def convertFloat32ToPCM_loop_eq)

lemma trunc_bounds:
  assumes "- 32768 \<le> q" "q \<le> 32767"
  shows "- 32768 \<le> trunc q" "trunc q \<le> 32767"
proof -
  show "- 32768 \<le> trunc q"
  proof (cases "0 \<le> q")
    case True
    then have "0 \<le> \<lfloor>q\<rfloor>" by simp
    with True show ?thesis by (simp add: trunc_def)
  next
    case False
    have "(- 32768 :: int) \<le> \<lceil>q\<rceil>"
      using assms(1) by (simp add: le_ceiling_iff)
    with False show ?thesis by (simp add: trunc_def)
  qed
  show "trunc q \<le> 32767"
  proof (cases "0 \<le> q")
    case True
    have "\<lfloor>q\<rfloor> \<le> (32767 :: int)"
      using assms(2) by (simp add: floor_le_iff)
    with True show ?thesis by (simp add: trunc_def)
  next
    case False
    then have "\<lceil>q\<rceil> \<le> 0" by (simp add: ceiling_le_iff)
    with False show ?thesis by (simp add: trunc_def)
  qed
qed

lemma sint_in_range:
  assumes "- 32768 \<le> k" "k \<le> 32767"
  shows "sint (word_of_int k :: 16 word) = k"
  using assms by (simp add: sint_sbintrunc' signed_take_bit_int_eq_self)

lemma sample_cases:
  "(case Math_max (- 32768) (Math_min 32767 (times_0x7fff v)) of
      Fin q \<Rightarrow> - 32768 \<le> q \<and> q \<le> 32767
        \<and> sint (ToInt16 (Math_max (- 32768) (Math_min 32767 (times_0x7fff v)))) = trunc q
    | NaN \<Rightarrow> v = NaN \<and> ToInt16 (Math_max (- 32768) (Math_min 32767 (times_0x7fff v))) = 0
    | _ \<Rightarrow> False)"
proof (cases v)
  case (Fin x)
  let ?q = "max (- 32768) (min 32767 (x * 32767))"
  have b: "- 32768 \<le> ?q" "?q \<le> 32767" by simp_all
  from trunc_bounds [OF b] have "sint (word_of_int (trunc ?q) :: 16 word) = trunc ?q"
    by (rule sint_in_range)
  with Fin b show ?thesis
    by (simp add: times_0x7fff_def Math_min_def Math_max_def ToInt16_def)
qed (simp_all add: times_0x7fff_def Math_min_def Math_max_def ToInt16_def trunc_def sint_in_range)

text \<open>
  Claim C5. For every array of float samples, of any magnitude and also for \<^verbatim>\<open>NaN\<close> and
  the infinities, every 16-bit sample that \<^verbatim>\<open>convertFloat32ToPCM\<close> writes lies in
  \<open>[-32768, 32767]\<close>, and nothing wraps around: the sample is multiplied by 32767 and
  clamped to that range, and the value stored is exactly the clamped value truncated
  towards zero (0 for \<^verbatim>\<open>NaN\<close>).
\<close>

theorem pcm16_in_range:
  assumes "i < length inputData"
  shows "length (convertFloat32ToPCM inputData) = length inputData
    \<and> - 32768 \<le> sint (convertFloat32ToPCM inputData ! i)
    \<and> sint (convertFloat32ToPCM inputData ! i) \<le> 32767
    \<and> (case Math_max (- 32768) (Math_min 32767 (times_0x7fff (inputData ! i))) of
          Fin q \<Rightarrow> - 32768 \<le> q \<and> q \<le> 32767
            \<and> sint (convertFloat32ToPCM inputData ! i) = trunc q
        | NaN \<Rightarrow> inputData ! i = NaN \<and> convertFloat32ToPCM inputData ! i = 0
        | _ \<Rightarrow> False)"
proof -
  have nth: "convertFloat32ToPCM inputData ! i =
      ToInt16 (Math_max (- 32768) (Math_min 32767 (times_0x7fff (inputData ! i))))"
    using assms by (simp add: convertFloat32ToPCM_map)
  have "- 32768 \<le> sint (convertFloat32ToPCM inputData ! i)"
    using sint_ge [of "convertFloat32ToPCM inputData ! i"] by simp
  moreover have "sint (convertFloat32ToPCM inputData ! i) \<le> 32767"
    using sint_lt [of "convertFloat32ToPCM inputData ! i"] by simp
  moreover have "length (convertFloat32ToPCM inputData) = length inputData"
    by (simp add: convertFloat32ToPCM_map)
  ultimately show ?thesis
    using sample_cases [of "inputData ! i"] by (simp add: nth cong: jsnum.case_cong)
qed

theorem pcm16_in_range_witness:
  "(1::nat) < length [Fin (1 / 2), Fin 5, Fin (- 7), NaN, PosInf]
    \<and> map sint (convertFloat32ToPCM [Fin (1 / 2), Fin 5, Fin (- 7), NaN, PosInf])
        = [16383, 32767, - 32768, 0, 32767]
    \<and> - 32768 \<le> sint (convertFloat32ToPCM [Fin (1 / 2), Fin 5, Fin (- 7), NaN, PosInf] ! 1)
    \<and> sint (convertFloat32ToPCM [Fin (1 / 2), Fin 5, Fin (- 7), NaN, PosInf] ! 1) \<le> 32767"
proof -
  have h: "(1::nat) < length [Fin (1 / 2), Fin 5, Fin (- 7), NaN, PosInf]" by simp
  have "map sint (convertFloat32ToPCM [Fin (1 / 2), Fin 5, Fin (- 7), NaN, PosInf])
        = [16383, 32767, - 32768, 0, 32767]"
    by code_simp
  then show ?thesis using h pcm16_in_range [OF h] by simp
qed

subsection \<open>The voice activity gate of the capture handler\<close>

lemma exceeds_rms_iff:
  "exceeds (rms samples) 100 \<longleftrightarrow>
     samples \<noteq> [] \<and> 10000 * int (length samples) < sum_squares samples"
proof (cases "samples = []")
  case True
  then show ?thesis by (simp add: rms_def exceeds_def)
next
  case False
  then have n: "0 < real (length samples)" by simp
  have "100 < sqrt (real_of_int (sum_squares samples) / real (length samples))
      \<longleftrightarrow> sqrt 10000 < sqrt (real_of_int (sum_squares samples) / real (length samples))"
    using real_sqrt_abs [of 100] by simp
  also have "\<dots> \<longleftrightarrow> 10000 < real_of_int (sum_squares samples) / real (length samples)"
    by (rule real_sqrt_less_iff)
  also have "\<dots> \<longleftrightarrow> 10000 * real (length samples) < real_of_int (sum_squares samples)"
    using n by (simp add: less_divide_eq)
  also have "\<dots> \<longleftrightarrow> real_of_int (10000 * int (length samples)) < real_of_int (sum_squares samples)"
    by simp
  also have "\<dots> \<longleftrightarrow> 10000 * int (length samples) < sum_squares samples"
    by (rule of_int_less_iff)
  finally show ?thesis using False by (simp add: rms_def exceeds_def)
qed

lemma silent_frame: "\<not> exceeds (rms pcmData) 100 \<Longrightarrow> audioRecorderHandler s pcmData = s"
  by (simp add: audioRecorderHandler_def)

lemma silent_frames:
  "\<forall>frame \<in> set frames. \<not> exceeds (rms frame) 100 \<Longrightarrow> foldl audioRecorderHandler s frames = s"
  by (induction frames) (simp_all add: silent_frame)

text \<open>
  Claim C6. A frame whose root mean square does not exceed 100 (the test \<^verbatim>\<open>rms > 100\<close> is
  false, which includes the empty frame, whose root mean square is \<^verbatim>\<open>NaN\<close>) is not
  appended to the pending buffer and arms no timer: the handler leaves the state as it
  was. Hence after any number \<open>n\<close> of frames of a silent sequence the buffer, the timer
  and the running intervals are what they were; a buffer that was empty stays empty.
\<close>

theorem silent_frames_not_buffered:
  assumes "\<forall>frame \<in> set frames. \<not> exceeds (rms frame) 100"
  shows "foldl audioRecorderHandler s (take n frames) = s
    \<and> audioBufferRef (foldl audioRecorderHandler s (take n frames)) = audioBufferRef s
    \<and> bufferTimerRef (foldl audioRecorderHandler s (take n frames)) = bufferTimerRef s
    \<and> intervals (foldl audioRecorderHandler s (take n frames)) = intervals s"
proof -
  have "\<forall>frame \<in> set (take n frames). \<not> exceeds (rms frame) 100"
    using assms by (auto dest: in_set_takeD)
  then have "foldl audioRecorderHandler s (take n frames) = s"
    by (rule silent_frames)
  then show ?thesis by simp
qed

lemma quiet_examples:
  "\<not> exceeds (rms [0, 0]) 100" "\<not> exceeds (rms [100, - 100]) 100" "\<not> exceeds (rms []) 100"
  "exceeds (rms [101, - 101]) 100"
  by (simp_all add: exceeds_rms_iff sum_squares_def)

theorem silent_frames_not_buffered_witness:
  "(\<not> exceeds (rms [0, 0]) 100 \<and> \<not> exceeds (rms [100, - 100]) 100 \<and> \<not> exceeds (rms []) 100)
    \<and> audioBufferRef (initial 0) = []
    \<and> length (audioBufferRef
         (foldl audioRecorderHandler (initial 0) (take 3 [[0, 0], [100, - 100], []]))) = 0
    \<and> bufferTimerRef
         (foldl audioRecorderHandler (initial 0) (take 3 [[0, 0], [100, - 100], []])) = None"
proof -
  have h: "\<forall>frame \<in> set [[0, 0], [100, - 100], []]. \<not> exceeds (rms frame) 100"
    by (simp add: quiet_examples)
  have "audioBufferRef (initial 0) = []" "bufferTimerRef (initial 0) = None"
    by (simp_all add: initial_def)
  then show ?thesis
    using silent_frames_not_buffered [OF h, of "initial 0" 3] by (simp add: quiet_examples)
qed

subsection \<open>Facts about the flush, the connection and the example runs\<close>

lemma totalLength_loop_eq: "totalLength_loop chunks n = n + length (concat chunks)"
  by (induction chunks arbitrary: n) simp_all

lemma combine_loop_eq:
  "length buffer = offset + length (concat chunks) \<Longrightarrow>
     combine_loop chunks offset buffer = take offset buffer @ concat chunks"
proof (induction chunks arbitrary: offset buffer)
  case Nil
  then show ?case by simp
next
  case (Cons chunk rest)
  have len: "length (set_at buffer chunk offset) = offset + length chunk + length (concat rest)"
    using Cons.prems by (simp add: set_at_def)
  have "take (offset + length chunk) (set_at buffer chunk offset) = take offset buffer @ chunk"
    using Cons.prems by (simp add: set_at_def)
  with Cons.IH [OF len] show ?case by simp
qed

lemma combined_concat: "combined chunks = concat chunks"
  by (simp add: combined_def combine_loop_eq totalLength_loop_eq)

lemma close_eventSource_eq:
  "close_eventSource s =
     s\<lparr>closedSources := closedSources s @ (case eventSourceRef s of None \<Rightarrow> [] | Some es \<Rightarrow> [es])\<rparr>"
  by (simp add: close_eventSource_def split: option.split)

lemma connectToServer_ok:
  "connectToServer s audioMode HealthOk now =
     s\<lparr>closedSources := closedSources s @ (case eventSourceRef s of None \<Rightarrow> [] | Some es \<Rightarrow> [es]),
       eventSourceRef := Some (nextObject s),
       eventSources := eventSources s @ [(nextObject s, audioMode)],
       nextObject := nextObject s + 1,
       captured_isMuted := isMuted s\<rparr>"
  by (simp add: connectToServer_def close_eventSource_eq Let_def)

lemma connectToServer_failed:
  "h \<noteq> HealthOk \<Longrightarrow> connectToServer s audioMode h now =
     s\<lparr>closedSources := closedSources s @ (case eventSourceRef s of None \<Rightarrow> [] | Some es \<Rightarrow> [es]),
       isConnected := False,
       messages := messages s @
         [notice now (''Failed to connect to server. '' @
            ''Server not reachable. Make sure your Python server is running on ''
            @ ''http://127.0.0.1:8000'')]\<rparr>"
  by (cases h) (simp_all add: connectToServer_def close_eventSource_eq Let_def)

lemma connectToServer_keeps:
  "audioPlayerContextRef (connectToServer s m h now) = audioPlayerContextRef s"
  "audioPlayerNodeRef (connectToServer s m h now) = audioPlayerNodeRef s"
  "audioRecorderContextRef (connectToServer s m h now) = audioRecorderContextRef s"
  "audioRecorderNodeRef (connectToServer s m h now) = audioRecorderNodeRef s"
  "micStreamRef (connectToServer s m h now) = micStreamRef s"
  "isVoiceEnabled (connectToServer s m h now) = isVoiceEnabled s"
  "isRecording (connectToServer s m h now) = isRecording s"
  "isMuted (connectToServer s m h now) = isMuted s"
  "isTyping (connectToServer s m h now) = isTyping s"
  "audioBufferRef (connectToServer s m h now) = audioBufferRef s"
  "bufferTimerRef (connectToServer s m h now) = bufferTimerRef s"
  "intervals (connectToServer s m h now) = intervals s"
  "requests (connectToServer s m h now) = requests s"
  "closedContexts (connectToServer s m h now) = closedContexts s"
  "stoppedStreams (connectToServer s m h now) = stoppedStreams s"
  "currentMessageIdRef (connectToServer s m h now) = currentMessageIdRef s"
  "inputValue (connectToServer s m h now) = inputValue s"
  "players (connectToServer s m h now) = players s"
  "captured_isConnected (connectToServer s m h now) = captured_isConnected s"
  "deferred (connectToServer s m h now) = deferred s"
  "closedSources (connectToServer s m h now) =
     closedSources s @ (case eventSourceRef s of None \<Rightarrow> [] | Some es \<Rightarrow> [es])"
  by (cases h; simp add: connectToServer_ok connectToServer_failed)+

lemma connected_text_simps:
  "isConnected connected_text" "eventSourceRef connected_text = Some 1"
  "eventSources connected_text = [(1, False)]" "nextObject connected_text = 2"
  "audioBufferRef connected_text = []" "bufferTimerRef connected_text = None"
  "micStreamRef connected_text = None" "audioPlayerContextRef connected_text = None"
  "audioRecorderContextRef connected_text = None" "audioPlayerNodeRef connected_text = None"
  "audioRecorderNodeRef connected_text = None" "\<not> isRecording connected_text"
  "\<not> isVoiceEnabled connected_text" "currentMessageIdRef connected_text = None"
  "closedSources connected_text = []" "requests connected_text = []"
  "\<not> isTyping connected_text" "\<not> isMuted connected_text" "closedContexts connected_text = []"
  "length (messages connected_text) = 2" "intervals connected_text = []"
  "deferred connected_text = []" "\<not> captured_isMuted connected_text"
  by (simp_all add: connected_text_def onopen_def connectToServer_ok initial_def Let_def)


lemma startVoiceConversation_refs:
  "audioPlayerContextRef (startVoiceConversation s Started Started h now later) = Some (nextObject s)"
  "audioPlayerNodeRef (startVoiceConversation s Started Started h now later) = Some (nextObject s + 1)"
  "audioRecorderContextRef (startVoiceConversation s Started Started h now later) = Some (nextObject s + 2)"
  "micStreamRef (startVoiceConversation s Started Started h now later) = Some (nextObject s + 3)"
  "audioRecorderNodeRef (startVoiceConversation s Started Started h now later) = Some (nextObject s + 4)"
  "isVoiceEnabled (startVoiceConversation s Started Started h now later)"
  "isRecording (startVoiceConversation s Started Started h now later)"
  "audioBufferRef (startVoiceConversation s Started Started h now later) = audioBufferRef s"
  "bufferTimerRef (startVoiceConversation s Started Started h now later) = bufferTimerRef s"
  "intervals (startVoiceConversation s Started Started h now later) = intervals s"
  "requests (startVoiceConversation s Started Started h now later) = requests s"
  "closedContexts (startVoiceConversation s Started Started h now later) = closedContexts s"
  "currentMessageIdRef (startVoiceConversation s Started Started h now later) = currentMessageIdRef s"
  "isTyping (startVoiceConversation s Started Started h now later) = isTyping s"
  "isMuted (startVoiceConversation s Started Started h now later) = isMuted s"
  "captured_isConnected (startVoiceConversation s Started Started h now later) = isConnected s"
  "deferred (startVoiceConversation s Started Started h now later) = deferred s"
  "players (startVoiceConversation s Started Started h now later) =
     (players s)(nextObject s + 1 := new_player)"
  "closedSources (startVoiceConversation s Started Started h now later) =
     closedSources s @ (case eventSourceRef s of None \<Rightarrow> [] | Some es \<Rightarrow> [es, es])"
  by (simp_all add: startVoiceConversation_def startAudioPlayerWorklet_def
      startAudioRecorderWorklet_def connectToServer_keeps close_eventSource_eq Let_def
      split: option.split)

lemma startVoiceConversation_stream:
  "eventSources (startVoiceConversation s Started Started HealthOk now later) =
     eventSources s @ [(nextObject s + 5, True)]"
  "eventSourceRef (startVoiceConversation s Started Started HealthOk now later) =
     Some (nextObject s + 5)"
  "nextObject (startVoiceConversation s Started Started HealthOk now later) = nextObject s + 6"
  "isConnected (startVoiceConversation s Started Started HealthOk now later) = isConnected s"
  "messages (startVoiceConversation s Started Started HealthOk now later) =
     messages s @ [notice later (''Voice conversation started - ''
             @ ''Speak naturally, AI is listening...'')]"
  "captured_isMuted (startVoiceConversation s Started Started HealthOk now later) = isMuted s"
  by (simp_all add: startVoiceConversation_def startAudioPlayerWorklet_def
      startAudioRecorderWorklet_def connectToServer_ok close_eventSource_eq Let_def)

lemma in_voice_simps:
  "isConnected in_voice" "eventSourceRef in_voice = Some 7"
  "eventSources in_voice = [(1, False), (7, True)]" "nextObject in_voice = 8"
  "audioBufferRef in_voice = []" "bufferTimerRef in_voice = None"
  "micStreamRef in_voice = Some 5" "audioPlayerContextRef in_voice = Some 2"
  "audioRecorderContextRef in_voice = Some 4" "audioPlayerNodeRef in_voice = Some 3"
  "audioRecorderNodeRef in_voice = Some 6" "isRecording in_voice"
  "isVoiceEnabled in_voice" "currentMessageIdRef in_voice = None"
  "closedSources in_voice = [1, 1]" "requests in_voice = []"
  "\<not> isTyping in_voice" "\<not> isMuted in_voice" "closedContexts in_voice = []"
  "length (messages in_voice) = 3" "intervals in_voice = []"
  "players in_voice 3 = new_player"
  "deferred in_voice = []" "\<not> captured_isMuted in_voice" "captured_isConnected in_voice"
  by (simp_all add: in_voice_def startVoiceConversation_refs startVoiceConversation_stream
      onopen_def connected_text_simps Let_def)

lemma loud_frame_exceeds: "exceeds (rms loud_frame) 100"
  by (simp add: exceeds_rms_iff sum_squares_def loud_frame_def)

lemma loud_frame_bytes: "Uint8Array loud_frame = [232, 3, 24, 252]"
  by (simp add: Uint8Array_def loud_frame_def int16_bytes_def)

lemma with_pending_audio_simps:
  "isConnected with_pending_audio" "eventSourceRef with_pending_audio = Some 7"
  "audioBufferRef with_pending_audio = [[232, 3, 24, 252]]"
  "bufferTimerRef with_pending_audio = Some 8" "intervals with_pending_audio = [8]"
  "isRecording with_pending_audio" "isVoiceEnabled with_pending_audio"
  "requests with_pending_audio = []"
  "eventSources with_pending_audio = [(1, False), (7, True)]"
  "captured_isConnected with_pending_audio"
  by (simp_all add: with_pending_audio_def audioRecorderHandler_def loud_frame_exceeds
      loud_frame_bytes in_voice_simps Let_def)

lemma voice_on_text_stream_simps:
  "isConnected voice_on_text_stream" "audioMode_of voice_on_text_stream = Some False"
  "audioBufferRef voice_on_text_stream = [[232, 3, 24, 252]]"
  "isRecording voice_on_text_stream" "isVoiceEnabled voice_on_text_stream"
  "requests voice_on_text_stream = []" "intervals voice_on_text_stream = [9]"
  "captured_isConnected voice_on_text_stream"
  by (simp_all add: voice_on_text_stream_def audioRecorderHandler_def loud_frame_exceeds
      loud_frame_bytes onopen_def connectToServer_ok onerror_def audioMode_of_def
      in_voice_simps Let_def)

lemma voice_after_error_simps:
  "\<not> isConnected voice_after_error" "captured_isConnected voice_after_error"
  "audioBufferRef voice_after_error = [[232, 3, 24, 252]]"
  "isRecording voice_after_error" "intervals voice_after_error = [8]"
  "requests voice_after_error = []"
  by (simp_all add: voice_after_error_def audioRecorderHandler_def loud_frame_exceeds
      loud_frame_bytes onerror_def in_voice_simps Let_def)

lemma base64_example: "arrayBufferToBase64 [232, 3, 24, 252] = ''6AMY/A==''"
  by code_simp

subsection \<open>Facts about the stream handler\<close>

lemma on_audio_other:
  "property v ''mime_type'' \<noteq> Some (JStr ''audio/pcm'') \<Longrightarrow> on_audio H s v = (None, s, [])"
  by (simp add: on_audio_def split: option.split)

lemma onmessage_TurnComplete:
  "onmessage H s rnd now (Some TurnComplete) =
     (on_turn_complete s, [(Log, ''Received data:''), (Log, ''Turn completed'')])"
  by (simp add: onmessage_def onmessage_try_def TurnComplete_def)

lemma onmessage_Interrupted:
  "onmessage H s rnd now (Some Interrupted) =
     (on_interrupted s, [(Log, ''Received data:''), (Log, ''Turn interrupted'')])"
  by (simp add: onmessage_def onmessage_try_def Interrupted_def)

lemma onmessage_TextDelta:
  "onmessage H s rnd now (Some (TextDelta text)) =
     (on_text s rnd now (TextDelta text), [(Log, ''Received data:'')])"
  by (simp add: onmessage_def onmessage_try_def on_audio_other TextDelta_def)

lemma on_text_first:
  "currentMessageIdRef s = None \<Longrightarrow> text \<noteq> [] \<Longrightarrow>
     on_text s rnd now (TextDelta text) =
       s\<lparr>isTyping := True, currentMessageIdRef := Some rnd,
         messages := messages s @
           [\<lparr>msg_id = rnd, content = JStr text, sender = Ai, timestamp = now\<rparr>]\<rparr>"
  by (simp add: on_text_def TextDelta_def Let_def)

lemma on_text_next:
  "currentMessageIdRef s = Some current \<Longrightarrow> text \<noteq> [] \<Longrightarrow>
     on_text s rnd now (TextDelta text) =
       s\<lparr>isTyping := True, deferred := deferred s @ [(length (messages s), JStr text)]\<rparr>"
  by (simp add: on_text_def TextDelta_def Let_def)

lemma base64ToArray_example: "base64ToArray ''6AMY/A=='' = Some [232, 3, 24, 252]"
  by code_simp

lemma onmessage_AudioChunk:
  "audioPlayerNodeRef s = Some node \<Longrightarrow> \<not> captured_isMuted s \<Longrightarrow> b64 \<noteq> [] \<Longrightarrow>
   base64ToArray b64 = Some bytes \<Longrightarrow>
     fst (onmessage H s rnd now (Some (AudioChunk b64))) =
       s\<lparr>players := (players s)(node := player_enqueue bytes (players s node))\<rparr>"
  by (simp add: onmessage_def onmessage_try_def on_audio_def on_text_def AudioChunk_def
      js_string_def)

subsection \<open>When an audio frame is sent\<close>

text \<open>
  Claim C1, as stated, fails. In the run \<open>with_pending_audio\<close> (connect, voice started,
  one loud frame captured, no timer tick yet) the page is connected and holds one
  pending chunk. \<^verbatim>\<open>stopVoiceConversation\<close> first sets \<open>isRecording\<close> to false and
  clears the timer, then flushes: in the state in which the flush runs the recording
  flag is false, and the flush posts an audio frame. Nor is the mode consulted: in the
  run \<open>voice_on_text_stream\<close> (the stream failed while voice was on and the user
  connected again, which is in text mode) a tick of the timer posts an audio frame while
  the session's stream is a text stream.
\<close>

theorem stop_flush_sends_while_not_recording:
  "isConnected with_pending_audio
    \<and> audioBufferRef with_pending_audio = [[232, 3, 24, 252]]
    \<and> requests with_pending_audio = []
    \<and> isRecording (stop_timer (stop_flags with_pending_audio)) = False
    \<and> requests (stop_flush (stop_timer (stop_flags with_pending_audio)))
        = [\<lparr>body_mime_type = ''audio/pcm'', body_data = ''6AMY/A==''\<rparr>]
    \<and> audioMode_of voice_on_text_stream = Some False
    \<and> requests voice_on_text_stream = []
    \<and> requests (timer_tick voice_on_text_stream)
        = [\<lparr>body_mime_type = ''audio/pcm'', body_data = ''6AMY/A==''\<rparr>]"
  by (simp add: stop_flush_def stop_timer_def stop_flags_def timer_tick_def
      sendBufferedAudio_def with_pending_audio_simps voice_on_text_stream_simps
      combined_concat base64_example Let_def)

text \<open>
  Claim C1, amended. A flush (\<^verbatim>\<open>sendBufferedAudio\<close>) posts an audio frame exactly when
  the pending buffer holds at least one byte and the \<^verbatim>\<open>isConnected\<close> its closure sees is
  true; the frame is the base64 text of the concatenated chunks, and the buffer is empty
  afterwards. Neither the mode nor the recording flag is consulted. The flush during the
  stop sees the current \<open>isConnected\<close>, and it runs when \<open>isRecording\<close> has already
  been set to false. A tick of the timer sees the \<^verbatim>\<open>isConnected\<close> of the render in which
  voice was started, whatever \<open>isConnected\<close> is now: starting voice captures the value
  (true, since the button is disabled otherwise), and a stream error, a connect, an
  opened stream and a captured frame leave what was captured.
\<close>

theorem audio_frame_sent_as_closure_sees:
  "requests (sendBufferedAudio seen s) =
     (if audioBufferRef s \<noteq> [] \<and> seen \<and> concat (audioBufferRef s) \<noteq> []
      then requests s @ [\<lparr>body_mime_type = ''audio/pcm'',
                           body_data = arrayBufferToBase64 (concat (audioBufferRef s))\<rparr>]
      else requests s)
   \<and> audioBufferRef (sendBufferedAudio seen s) = []
   \<and> requests (stop_flush (stop_timer (stop_flags s)))
       = requests (sendBufferedAudio (isConnected s) s)
   \<and> \<not> isRecording (stop_timer (stop_flags s))
   \<and> timer_tick s =
       (if intervals s = [] then s else sendBufferedAudio (captured_isConnected s) s)
   \<and> captured_isConnected (startVoiceConversation s Started Started h now later)
       = isConnected s
   \<and> captured_isConnected (onerror s now) = captured_isConnected s
   \<and> captured_isConnected (connectToServer s audioMode h now) = captured_isConnected s
   \<and> captured_isConnected (onopen s audioMode now) = captured_isConnected s
   \<and> captured_isConnected (audioRecorderHandler s pcmData) = captured_isConnected s"
proof -
  have "captured_isConnected (audioRecorderHandler s pcmData) = captured_isConnected s"
    by (simp add: audioRecorderHandler_def Let_def)
  moreover have "captured_isConnected (onopen s audioMode now) = captured_isConnected s"
    by (simp add: onopen_def Let_def)
  moreover have "requests (sendBufferedAudio seen s) =
     (if audioBufferRef s \<noteq> [] \<and> seen \<and> concat (audioBufferRef s) \<noteq> []
      then requests s @ [\<lparr>body_mime_type = ''audio/pcm'',
                           body_data = arrayBufferToBase64 (concat (audioBufferRef s))\<rparr>]
      else requests s)"
    by (auto simp: sendBufferedAudio_def combined_concat Let_def)
  moreover have "requests (stop_flush (stop_timer (stop_flags s)))
       = requests (sendBufferedAudio (isConnected s) s)"
    by (auto simp: sendBufferedAudio_def stop_flush_def stop_timer_def stop_flags_def
        combined_concat Let_def split: option.split)
  moreover have "\<not> isRecording (stop_timer (stop_flags s))"
    by (simp add: stop_timer_def stop_flags_def split: option.split)
  moreover have "audioBufferRef (sendBufferedAudio seen s) = []"
    by (simp add: sendBufferedAudio_def Let_def)
  ultimately show ?thesis
    by (simp add: timer_tick_def startVoiceConversation_refs connectToServer_keeps onerror_def)
qed

theorem audio_frame_sent_as_closure_sees_witness:
  "\<not> isConnected voice_after_error
   \<and> intervals voice_after_error = [8]
   \<and> requests (timer_tick voice_after_error)
     = [\<lparr>body_mime_type = ''audio/pcm'', body_data = ''6AMY/A==''\<rparr>]
   \<and> requests (sendBufferedAudio True with_pending_audio)
     = [\<lparr>body_mime_type = ''audio/pcm'', body_data = ''6AMY/A==''\<rparr>]
   \<and> requests (sendBufferedAudio False with_pending_audio) = []
   \<and> audioBufferRef (sendBufferedAudio False with_pending_audio) = []
   \<and> requests (sendBufferedAudio True in_voice) = []"
  using audio_frame_sent_as_closure_sees [of True with_pending_audio]
    audio_frame_sent_as_closure_sees [of False with_pending_audio]
    audio_frame_sent_as_closure_sees [of True in_voice]
    audio_frame_sent_as_closure_sees [of True voice_after_error]
  by (simp add: with_pending_audio_simps in_voice_simps voice_after_error_simps
      base64_example)

subsection \<open>Starting voice twice\<close>

text \<open>
  Claim C7, as stated, fails. In the run \<open>in_voice\<close> the session is in audio mode with a
  player (node 3) and a recorder (node 6, microphone stream 5). A second
  \<^verbatim>\<open>startVoiceConversation\<close> without a stop stores new handles (9, 12, 11) in place of
  these and opens a third event source, in audio mode again, although the mode asked
  for is the mode the session has.
\<close>

theorem start_voice_again_replaces_pipelines:
  "audioMode_of in_voice = Some True \<and> isVoiceEnabled in_voice
   \<and> audioPlayerNodeRef in_voice = Some 3 \<and> audioRecorderNodeRef in_voice = Some 6
   \<and> micStreamRef in_voice = Some 5
   \<and> audioPlayerNodeRef (startVoiceConversation in_voice Started Started HealthOk 6 7) = Some 9
   \<and> audioRecorderNodeRef (startVoiceConversation in_voice Started Started HealthOk 6 7) = Some 12
   \<and> micStreamRef (startVoiceConversation in_voice Started Started HealthOk 6 7) = Some 11
   \<and> eventSources in_voice = [(1, False), (7, True)]
   \<and> eventSources (startVoiceConversation in_voice Started Started HealthOk 6 7)
       = [(1, False), (7, True), (13, True)]
   \<and> closedSources (startVoiceConversation in_voice Started Started HealthOk 6 7) = [1, 1, 7, 7]"
  by (simp add: audioMode_of_def in_voice_simps startVoiceConversation_refs
      startVoiceConversation_stream)

text \<open>
  Claim C7, amended. \<^verbatim>\<open>startVoiceConversation\<close> has no test for a conversation that
  is running (the page shows its button only while \<open>isVoiceEnabled\<close> is false). Whenever
  both worklets start, it creates five new host objects, stores the new player and
  recorder handles whatever the refs held, sets \<open>isVoiceEnabled\<close> and \<open>isRecording\<close>,
  closes the event source it holds (twice: once itself, once in \<^verbatim>\<open>connectToServer\<close>),
  and connects in audio mode whatever the current mode: exactly one new event source,
  in audio mode, when the health check succeeds, none when it fails.
\<close>

theorem start_voice_always_starts_pipelines:
  "audioPlayerContextRef (startVoiceConversation s Started Started h now later) = Some (nextObject s)
   \<and> audioPlayerNodeRef (startVoiceConversation s Started Started h now later) = Some (nextObject s + 1)
   \<and> audioRecorderContextRef (startVoiceConversation s Started Started h now later) = Some (nextObject s + 2)
   \<and> micStreamRef (startVoiceConversation s Started Started h now later) = Some (nextObject s + 3)
   \<and> audioRecorderNodeRef (startVoiceConversation s Started Started h now later) = Some (nextObject s + 4)
   \<and> players (startVoiceConversation s Started Started h now later) (nextObject s + 1) = new_player
   \<and> isVoiceEnabled (startVoiceConversation s Started Started h now later)
   \<and> isRecording (startVoiceConversation s Started Started h now later)
   \<and> closedSources (startVoiceConversation s Started Started h now later)
       = closedSources s @ (case eventSourceRef s of None \<Rightarrow> [] | Some es \<Rightarrow> [es, es])
   \<and> eventSources (startVoiceConversation s Started Started h now later)
       = eventSources s @ (if h = HealthOk then [(nextObject s + 5, True)] else [])
   \<and> eventSourceRef (startVoiceConversation s Started Started h now later)
       = (if h = HealthOk then Some (nextObject s + 5) else eventSourceRef s)"
proof (cases "h = HealthOk")
  case True
  then show ?thesis
    by (simp add: startVoiceConversation_refs startVoiceConversation_stream)
next
  case False
  then have "eventSources (startVoiceConversation s Started Started h now later) = eventSources s"
    "eventSourceRef (startVoiceConversation s Started Started h now later) = eventSourceRef s"
    by (simp_all add: startVoiceConversation_def startAudioPlayerWorklet_def
        startAudioRecorderWorklet_def connectToServer_failed close_eventSource_eq Let_def)
  with False show ?thesis
    by (simp add: startVoiceConversation_refs)
qed

theorem start_voice_always_starts_pipelines_witness:
  "audioPlayerNodeRef connected_text = None
   \<and> audioPlayerNodeRef (startVoiceConversation connected_text Started Started HealthOk 3 4) = Some 3
   \<and> audioPlayerNodeRef in_voice = Some 3
   \<and> audioPlayerNodeRef (startVoiceConversation in_voice Started Started HealthOk 6 7) = Some 9
   \<and> eventSources (startVoiceConversation in_voice Started Started HealthOk 6 7)
       = [(1, False), (7, True), (13, True)]
   \<and> eventSources (startVoiceConversation in_voice Started Started HealthNotOk 6 7)
       = [(1, False), (7, True)]"
  using start_voice_always_starts_pipelines [of connected_text HealthOk 3 4]
    start_voice_always_starts_pipelines [of in_voice HealthOk 6 7]
    start_voice_always_starts_pipelines [of in_voice HealthNotOk 6 7]
  by (simp add: connected_text_simps in_voice_simps)

subsection \<open>Stopping voice that was never started\<close>

lemma stop_without_start_steps:
  assumes "audioPlayerContextRef s = None" "audioRecorderContextRef s = None"
    "micStreamRef s = None" "bufferTimerRef s = None" "audioBufferRef s = []"
    "\<not> isRecording s" "\<not> isVoiceEnabled s"
  shows "stop_flags s = s" "stop_timer s = s" "stop_flush s = s" "stop_microphone s = s"
    "close_player_context s = Inr s" "close_recorder_context s = Inr s"
  using assms
  by (cases s; simp add: stop_flags_def stop_timer_def stop_flush_def stop_microphone_def
      close_player_context_def close_recorder_context_def)+

lemma stop_reconnect_fields:
  "isRecording (stop_reconnect s h now later) = isRecording s"
  "isVoiceEnabled (stop_reconnect s h now later) = isVoiceEnabled s"
  "isMuted (stop_reconnect s h now later) = isMuted s"
  "isTyping (stop_reconnect s h now later) = isTyping s"
  "audioBufferRef (stop_reconnect s h now later) = audioBufferRef s"
  "bufferTimerRef (stop_reconnect s h now later) = bufferTimerRef s"
  "intervals (stop_reconnect s h now later) = intervals s"
  "requests (stop_reconnect s h now later) = requests s"
  "micStreamRef (stop_reconnect s h now later) = micStreamRef s"
  "audioPlayerContextRef (stop_reconnect s h now later) = audioPlayerContextRef s"
  "audioRecorderContextRef (stop_reconnect s h now later) = audioRecorderContextRef s"
  "audioPlayerNodeRef (stop_reconnect s h now later) = None"
  "audioRecorderNodeRef (stop_reconnect s h now later) = None"
  "currentMessageIdRef (stop_reconnect s h now later) = currentMessageIdRef s"
  "players (stop_reconnect s h now later) = players s"
  "closedContexts (stop_reconnect s h now later) = closedContexts s"
  "closedSources (stop_reconnect s h now later) =
     closedSources s @ (case eventSourceRef s of None \<Rightarrow> [] | Some es \<Rightarrow> [es, es])"
  by (simp_all add: stop_reconnect_def connectToServer_keeps close_eventSource_eq Let_def
      split: option.split)

lemma stop_reconnect_stream:
  "messages (stop_reconnect s h now later) =
     messages s @
     (if h = HealthOk then []
      else [notice now (''Failed to connect to server. '' @
              ''Server not reachable. Make sure your Python server is running on ''
              @ ''http://127.0.0.1:8000'')])
     @ [notice later ''Voice conversation stopped - Switched to text mode'']"
  "isConnected (stop_reconnect s h now later) = (isConnected s \<and> h = HealthOk)"
  "eventSourceRef (stop_reconnect s h now later) =
     (if h = HealthOk then Some (nextObject s) else eventSourceRef s)"
  "eventSources (stop_reconnect s h now later) =
     eventSources s @ (if h = HealthOk then [(nextObject s, False)] else [])"
  by (cases "h = HealthOk";
      simp add: stop_reconnect_def connectToServer_ok connectToServer_failed
        close_eventSource_eq Let_def)+

text \<open>
  Claim C8, as stated, fails. In the run \<open>connected_text\<close> no voice conversation was
  ever started. \<^verbatim>\<open>stopVoiceConversation\<close> returns without an exception, but the state
  is not what it was: the event source 1 is closed and a new one (2) is opened, and the
  transcript has a third entry, the notice that the voice conversation stopped.
\<close>

theorem stop_without_start_reconnects:
  "\<not> isVoiceEnabled connected_text \<and> \<not> isRecording connected_text
   \<and> audioRecorderNodeRef connected_text = None \<and> audioPlayerNodeRef connected_text = None
   \<and> micStreamRef connected_text = None
   \<and> eventSourceRef connected_text = Some 1
   \<and> map_sum id eventSourceRef (stopVoiceConversation connected_text HealthOk 3 4) = Inr (Some 2)
   \<and> map_sum id closedSources (stopVoiceConversation connected_text HealthOk 3 4) = Inr [1, 1]
   \<and> map_sum id messages (stopVoiceConversation connected_text HealthOk 3 4)
       = Inr (messages connected_text
              @ [notice 4 ''Voice conversation stopped - Switched to text mode''])
   \<and> map_sum id (\<lambda>s. length (messages s)) (stopVoiceConversation connected_text HealthOk 3 4)
       = Inr 3
   \<and> length (messages connected_text) = 2"
  by (simp add: stopVoiceConversation_def stop_without_start_steps connected_text_simps
      stop_reconnect_fields stop_reconnect_stream)

text \<open>
  Claim C8, amended. On a page whose capture and playback were never started (no audio
  refs, no timer, an empty pending buffer, both flags false) \<^verbatim>\<open>stopVoiceConversation\<close>
  does not throw and leaves the recording, voice, muted and typing flags, the pending
  buffer, the timer, the audio refs and the requests sent as they were. It is not
  without effect, as the page calls it only while voice is enabled: it closes the
  event source, connects again in text mode (the page is connected afterwards only if
  it was and the health check succeeds), and appends to the transcript the notice of a
  failed connect, if it failed, and the notice that voice stopped. Nothing is removed
  from the transcript.
\<close>

theorem stop_without_start:
  assumes "audioPlayerContextRef s = None" "audioRecorderContextRef s = None"
    "audioPlayerNodeRef s = None" "audioRecorderNodeRef s = None"
    "micStreamRef s = None" "bufferTimerRef s = None" "audioBufferRef s = []"
    "\<not> isRecording s" "\<not> isVoiceEnabled s"
  shows "\<exists>s'. stopVoiceConversation s h now later = Inr s'
    \<and> isRecording s' = isRecording s \<and> isVoiceEnabled s' = isVoiceEnabled s
    \<and> isMuted s' = isMuted s \<and> isTyping s' = isTyping s
    \<and> audioBufferRef s' = audioBufferRef s \<and> bufferTimerRef s' = bufferTimerRef s
    \<and> intervals s' = intervals s \<and> requests s' = requests s
    \<and> audioPlayerContextRef s' = None \<and> audioRecorderContextRef s' = None
    \<and> audioPlayerNodeRef s' = None \<and> audioRecorderNodeRef s' = None \<and> micStreamRef s' = None
    \<and> currentMessageIdRef s' = currentMessageIdRef s \<and> players s' = players s
    \<and> closedSources s' =
         closedSources s @ (case eventSourceRef s of None \<Rightarrow> [] | Some es \<Rightarrow> [es, es])
    \<and> eventSources s' = eventSources s @ (if h = HealthOk then [(nextObject s, False)] else [])
    \<and> eventSourceRef s' = (if h = HealthOk then Some (nextObject s) else eventSourceRef s)
    \<and> isConnected s' = (isConnected s \<and> h = HealthOk)
    \<and> messages s' =
         messages s @
         (if h = HealthOk then []
          else [notice now (''Failed to connect to server. '' @
                  ''Server not reachable. Make sure your Python server is running on ''
                  @ ''http://127.0.0.1:8000'')])
         @ [notice later ''Voice conversation stopped - Switched to text mode'']"
proof -
  have "stopVoiceConversation s h now later = Inr (stop_reconnect s h now later)"
    using assms by (simp add: stopVoiceConversation_def stop_without_start_steps)
  then show ?thesis
    using assms by (simp add: stop_reconnect_fields stop_reconnect_stream)
qed

theorem stop_without_start_witness:
  "(audioPlayerContextRef connected_text = None \<and> audioRecorderContextRef connected_text = None
    \<and> audioPlayerNodeRef connected_text = None \<and> audioRecorderNodeRef connected_text = None
    \<and> micStreamRef connected_text = None \<and> bufferTimerRef connected_text = None
    \<and> audioBufferRef connected_text = [] \<and> \<not> isRecording connected_text
    \<and> \<not> isVoiceEnabled connected_text)
   \<and> (\<exists>s'. stopVoiceConversation connected_text HealthUnreachable 3 4 = Inr s'
        \<and> \<not> isRecording s' \<and> \<not> isVoiceEnabled s' \<and> audioBufferRef s' = []
        \<and> bufferTimerRef s' = None \<and> requests s' = [] \<and> \<not> isConnected s'
        \<and> length (messages s') = 4)"
  using stop_without_start [of connected_text HealthUnreachable 3 4]
  by (auto simp: connected_text_simps)

subsection \<open>Sending a message, then failing to connect\<close>

text \<open>
  Claim C9. While the page is connected and the input is not blank, \<^verbatim>\<open>sendMessage\<close>
  appends the user's message to the transcript and issues the request before it
  awaits the response. Whatever the response, the transcript then is the old one, the
  user's message and at most a notice that sending failed. A later
  \<^verbatim>\<open>connectToServer\<close> whose health check fails, in any state \<open>s'\<close>, only appends
  its notice to the transcript: the user's message is still there.
\<close>

theorem optimistic_message_survives_connect_failure:
  assumes "isConnected s" "trim (inputValue s) \<noteq> []" "h \<noteq> HealthOk"
  shows "sendMessage_request s now =
      Some (s\<lparr>messages := messages s @
                 [\<lparr>msg_id = decimal now, content = JStr (inputValue s),
                   sender = User, timestamp = now\<rparr>],
               requests := requests s @
                 [\<lparr>body_mime_type = ''text/plain'', body_data = inputValue s\<rparr>]\<rparr>)
    \<and> messages (sendMessage s now response later) =
        messages s @
        [\<lparr>msg_id = decimal now, content = JStr (inputValue s), sender = User, timestamp = now\<rparr>]
        @ (if response = ResponseOk then []
           else [notice later ''Failed to send message. Please try again.''])
    \<and> messages (connectToServer (sendMessage s now response later) audioMode h t) =
        messages (sendMessage s now response later) @
        [notice t (''Failed to connect to server. '' @
           ''Server not reachable. Make sure your Python server is running on ''
           @ ''http://127.0.0.1:8000'')]
    \<and> messages (connectToServer s' audioMode h t) =
        messages s' @
        [notice t (''Failed to connect to server. '' @
           ''Server not reachable. Make sure your Python server is running on ''
           @ ''http://127.0.0.1:8000'')]
    \<and> \<lparr>msg_id = decimal now, content = JStr (inputValue s), sender = User, timestamp = now\<rparr>
        \<in> set (messages (connectToServer (sendMessage s now response later) audioMode h t))"
proof -
  have req: "sendMessage_request s now =
      Some (s\<lparr>messages := messages s @
                 [\<lparr>msg_id = decimal now, content = JStr (inputValue s),
                   sender = User, timestamp = now\<rparr>],
               requests := requests s @
                 [\<lparr>body_mime_type = ''text/plain'', body_data = inputValue s\<rparr>]\<rparr>)"
    using assms(1,2) by (simp add: sendMessage_request_def)
  have sent: "messages (sendMessage s now response later) =
        messages s @
        [\<lparr>msg_id = decimal now, content = JStr (inputValue s), sender = User, timestamp = now\<rparr>]
        @ (if response = ResponseOk then []
           else [notice later ''Failed to send message. Please try again.''])"
    by (cases response) (simp_all add: sendMessage_def req sendMessage_settled_def)
  have conn: "\<And>u. messages (connectToServer u audioMode h t) =
        messages u @
        [notice t (''Failed to connect to server. '' @
           ''Server not reachable. Make sure your Python server is running on ''
           @ ''http://127.0.0.1:8000'')]"
    using assms(3) by (simp add: connectToServer_failed)
  show ?thesis
    by (simp only: req sent conn) simp
qed

lemma trim_hi: "trim ''hi'' = ''hi''"
  by (simp add: trim_def js_whitespace_def)

theorem optimistic_message_survives_connect_failure_witness:
  "isConnected (connected_text\<lparr>inputValue := ''hi''\<rparr>)
   \<and> trim (inputValue (connected_text\<lparr>inputValue := ''hi''\<rparr>)) \<noteq> []
   \<and> HealthUnreachable \<noteq> HealthOk
   \<and> map content (messages (connectToServer
         (sendMessage (connected_text\<lparr>inputValue := ''hi''\<rparr>) 3 ResponseOk 4)
         False HealthUnreachable 5))
     = map content (messages connected_text)
       @ [JStr ''hi'',
          JStr (''Failed to connect to server. '' @
           ''Server not reachable. Make sure your Python server is running on ''
           @ ''http://127.0.0.1:8000'')]"
proof -
  have h: "isConnected (connected_text\<lparr>inputValue := ''hi''\<rparr>)"
    "trim (inputValue (connected_text\<lparr>inputValue := ''hi''\<rparr>)) \<noteq> []"
    "HealthUnreachable \<noteq> HealthOk"
    by (simp_all add: connected_text_simps trim_hi)
  show ?thesis
    using h optimistic_message_survives_connect_failure [OF h, of 3 ResponseOk 4 False 5]
    by (simp add: notice_def)
qed

subsection \<open>Text deltas and the end of a turn\<close>

lemma run_updater_null: "run_updater H None msgs u = msgs"
  by (cases u) (simp add: run_updater_def)

lemma render_null:
  "currentMessageIdRef s = None \<Longrightarrow> render H s = s\<lparr>deferred := []\<rparr>"
proof -
  assume "currentMessageIdRef s = None"
  moreover have "foldl (run_updater H None) msgs us = msgs" for msgs us
    by (induction us) (simp_all add: run_updater_null)
  ultimately show ?thesis by (simp add: render_def)
qed

lemma two_deltas:
  assumes "currentMessageIdRef s = None"
  shows "process H s [(rnd, now, Some (TextDelta ''A'')), (rnd2, now2, Some (TextDelta ''B''))] =
    s\<lparr>isTyping := True, currentMessageIdRef := Some rnd,
      messages := messages s @
        [\<lparr>msg_id = rnd, content = JStr ''A'', sender = Ai, timestamp = now\<rparr>],
      deferred := deferred s @ [(length (messages s) + 1, JStr ''B'')]\<rparr>"
proof -
  let ?s1 = "s\<lparr>isTyping := True, currentMessageIdRef := Some rnd,
         messages := messages s @
           [\<lparr>msg_id = rnd, content = JStr ''A'', sender = Ai, timestamp = now\<rparr>]\<rparr>"
  have p: "currentMessageIdRef ?s1 = Some rnd" by simp
  show ?thesis
    using assms by (simp add: onmessage_TextDelta on_text_first on_text_next [OF p])
qed

lemma text_deltas_before_render:
  assumes "currentMessageIdRef s = None"
  shows "messages (render H (process H s
      [(rnd, now, Some (TextDelta ''A'')), (rnd2, now2, Some (TextDelta ''B'')),
       (rnd3, now3, Some TurnComplete)])) =
    messages s @ [\<lparr>msg_id = rnd, content = JStr ''A'', sender = Ai, timestamp = now\<rparr>]"
proof -
  have split: "process H s [(rnd, now, Some (TextDelta ''A'')), (rnd2, now2, Some (TextDelta ''B'')),
       (rnd3, now3, Some TurnComplete)]
      = on_turn_complete (process H s
          [(rnd, now, Some (TextDelta ''A'')), (rnd2, now2, Some (TextDelta ''B''))])"
    by (simp add: onmessage_TurnComplete)
  show ?thesis
    unfolding split two_deltas [OF assms]
    by (simp add: on_turn_complete_def render_null)
qed

lemma text_deltas_render_between:
  assumes "currentMessageIdRef s = None" "deferred s = []"
    "rnd \<notin> msg_id ` set (messages s)"
  shows "messages (render H (process H (render H (process H s
      [(rnd, now, Some (TextDelta ''A'')), (rnd2, now2, Some (TextDelta ''B''))]))
      [(rnd3, now3, Some TurnComplete)])) =
    messages s @ [\<lparr>msg_id = rnd, content = JStr ''AB'', sender = Ai, timestamp = now\<rparr>]"
proof -
  have same: "map (\<lambda>msg. if msg_id msg = rnd
        then msg\<lparr>content := js_plus H (content msg) (JStr ''B'')\<rparr> else msg) (messages s)
      = messages s"
    using assms(3) by (intro map_idI) auto
  show ?thesis
    unfolding two_deltas [OF assms(1)]
    using assms(2) same
    by (simp add: render_def run_updater_def onmessage_TurnComplete on_turn_complete_def
        js_plus_def)
qed

text \<open>
  Claim C2: from a state with no open agent message the events \<^verbatim>\<open>TextDelta("A")\<close>,
  \<^verbatim>\<open>TextDelta("B")\<close>, \<^verbatim>\<open>TurnComplete\<close> add exactly one agent message, whose text is
  \<^verbatim>\<open>"AB"\<close> in the end. The page does this when React renders between the second delta and
  the completion (second part below). When the three events are handled before React
  renders, it does not: the first delta appends the message with text \<^verbatim>\<open>"A"\<close>, the
  second queues its updater, the completion sets the pointer to null, and the updater,
  run at the render, finds no entry with the id \<^verbatim>\<open>null\<close>. The message keeps the text
  \<^verbatim>\<open>"A"\<close> (first part below, on the run \<open>connected_text\<close>).
\<close>

theorem second_delta_lost_without_render:
  "currentMessageIdRef connected_text = None \<and> deferred connected_text = []
   \<and> map content (messages (render host0 (process host0 connected_text
        [(''k3x'', 3, Some (TextDelta ''A'')), (''zz'', 4, Some (TextDelta ''B'')),
         (''q'', 5, Some TurnComplete)])))
      = map content (messages connected_text) @ [JStr ''A'']
   \<and> map content (messages (render host0 (process host0 (render host0
        (process host0 connected_text
          [(''k3x'', 3, Some (TextDelta ''A'')), (''zz'', 4, Some (TextDelta ''B''))]))
        [(''q'', 5, Some TurnComplete)])))
      = map content (messages connected_text) @ [JStr ''AB'']"
proof -
  have h: "currentMessageIdRef connected_text = None" "deferred connected_text = []"
    by (simp_all add: connected_text_simps)
  have ids: "map msg_id (messages connected_text) = [''1'', ''2'']"
    by code_simp
  then have fresh: "''k3x'' \<notin> msg_id ` set (messages connected_text)"
    by (simp flip: set_map)
  show ?thesis
    by (simp only: h text_deltas_before_render [OF h(1)]
        text_deltas_render_between [OF h fresh]) simp
qed

subsection \<open>Interruption\<close>

text \<open>
  What an \<^verbatim>\<open>Interrupted\<close> event does to playback, in every state and whatever the queue
  holds: the playback queue of the page is empty afterwards and no buffer is being
  played (the player, when the page has one, is told \<^verbatim>\<open>endOfAudio\<close>; its behaviour is
  that of section 4.4 of the specification), and the typing flag is false.
\<close>

lemma interrupted_clears_playback:
  "playback_queue (fst (onmessage H s rnd now (Some Interrupted))) = []
   \<and> now_playing (fst (onmessage H s rnd now (Some Interrupted))) = None
   \<and> \<not> isTyping (fst (onmessage H s rnd now (Some Interrupted)))
   \<and> audioPlayerNodeRef (fst (onmessage H s rnd now (Some Interrupted))) = audioPlayerNodeRef s"
  by (simp add: onmessage_Interrupted on_interrupted_def playback_queue_def now_playing_def
      player_endOfAudio_def Let_def split: option.split)

lemma interrupted_after_audio:
  "playback_queue (process host0 in_voice
        [(''k3x'', 6, Some (TextDelta ''Hello'')), (''a'', 7, Some (AudioChunk ''6AMY/A=='')),
         (''b'', 8, Some (AudioChunk ''6AMY/A==''))])
     = [[232, 3, 24, 252], [232, 3, 24, 252]]
   \<and> playback_queue (process host0 in_voice
        [(''k3x'', 6, Some (TextDelta ''Hello'')), (''a'', 7, Some (AudioChunk ''6AMY/A=='')),
         (''b'', 8, Some (AudioChunk ''6AMY/A=='')), (''c'', 9, Some Interrupted)]) = []
   \<and> \<not> isTyping (process host0 in_voice
        [(''k3x'', 6, Some (TextDelta ''Hello'')), (''a'', 7, Some (AudioChunk ''6AMY/A=='')),
         (''b'', 8, Some (AudioChunk ''6AMY/A=='')), (''c'', 9, Some Interrupted)])"
proof -
  let ?s1 = "fst (onmessage host0 in_voice ''k3x'' 6 (Some (TextDelta ''Hello'')))"
  have s1: "audioPlayerNodeRef ?s1 = Some 3" "\<not> captured_isMuted ?s1"
    "players ?s1 3 = new_player"
    by (simp_all add: onmessage_TextDelta on_text_first in_voice_simps)
  let ?s2 = "fst (onmessage host0 ?s1 ''a'' 7 (Some (AudioChunk ''6AMY/A=='')))"
  have s2: "audioPlayerNodeRef ?s2 = Some 3" "\<not> captured_isMuted ?s2"
    "players ?s2 3 = player_enqueue [232, 3, 24, 252] new_player"
    using s1 by (simp_all add: onmessage_AudioChunk [OF s1(1,2) _ base64ToArray_example])
  let ?s3 = "fst (onmessage host0 ?s2 ''b'' 8 (Some (AudioChunk ''6AMY/A=='')))"
  have s3: "playback_queue ?s3 = [[232, 3, 24, 252], [232, 3, 24, 252]]"
    using s2 by (simp add: onmessage_AudioChunk [OF s2(1,2) _ base64ToArray_example]
        playback_queue_def player_enqueue_def new_player_def)
  show ?thesis
    using s3 interrupted_clears_playback [of host0 ?s3 "''c''" 9]
    by simp
qed

lemma delta_after_interruption:
  assumes "currentMessageIdRef s = None" "deferred s = []"
    "rnd \<notin> msg_id ` set (messages s)"
  shows "messages (render H (process H (render H (process H s
      [(rnd, now, Some (TextDelta ''Hello'')), (rnd2, now2, Some Interrupted)]))
      [(rnd3, now3, Some (TextDelta ''Next''))])) =
    messages s @ [\<lparr>msg_id = rnd, content = JStr ''HelloNext'', sender = Ai, timestamp = now\<rparr>]"
proof -
  let ?s1 = "s\<lparr>isTyping := True, currentMessageIdRef := Some rnd,
         messages := messages s @
           [\<lparr>msg_id = rnd, content = JStr ''Hello'', sender = Ai, timestamp = now\<rparr>]\<rparr>"
  have first: "process H s [(rnd, now, Some (TextDelta ''Hello'')), (rnd2, now2, Some Interrupted)]
      = on_interrupted ?s1"
    using assms(1) by (simp add: onmessage_TextDelta on_text_first onmessage_Interrupted)
  define s2 where "s2 = render H (on_interrupted ?s1)"
  have fields: "currentMessageIdRef s2 = Some rnd" "deferred s2 = []"
    "messages s2 = messages s @
       [\<lparr>msg_id = rnd, content = JStr ''Hello'', sender = Ai, timestamp = now\<rparr>]"
    using assms(2)
    by (simp_all add: s2_def render_def on_interrupted_def Let_def split: option.split)
  have same: "map (\<lambda>msg. if msg_id msg = rnd
        then msg\<lparr>content := js_plus H (content msg) (JStr ''Next'')\<rparr> else msg) (messages s)
      = messages s"
    using assms(3) by (intro map_idI) auto
  have "process H s2 [(rnd3, now3, Some (TextDelta ''Next''))]
      = s2\<lparr>isTyping := True, deferred := deferred s2 @ [(length (messages s2), JStr ''Next'')]\<rparr>"
    by (simp add: onmessage_TextDelta on_text_next [OF fields(1)])
  then have "messages (render H (process H s2 [(rnd3, now3, Some (TextDelta ''Next''))]))
      = messages s @
        [\<lparr>msg_id = rnd, content = JStr ''HelloNext'', sender = Ai, timestamp = now\<rparr>]"
    using fields same by (simp add: render_def run_updater_def js_plus_def)
  then show ?thesis
    unfolding first s2_def .
qed

text \<open>
  Claim C3: an \<^verbatim>\<open>Interrupted\<close> event empties the playback queue, sets the typing flag to
  false and resets the pointer to the current message. The page does the first two
  (above) and not the third: the branch for \<^verbatim>\<open>interrupted\<close> clears the typing flag and
  tells the player to drop its audio, and does not assign \<open>currentMessageIdRef\<close>, which
  the branch for \<^verbatim>\<open>turn_complete\<close> sets to null. In the run \<open>in_voice\<close> the events
  \<^verbatim>\<open>TextDelta("Hello")\<close>, \<^verbatim>\<open>Interrupted\<close> leave the pointer on the message the delta
  opened, and the text of the next turn, \<^verbatim>\<open>TextDelta("Next")\<close>, is appended to that
  message, React rendering after each event: the transcript has one new entry,
  \<^verbatim>\<open>"HelloNext"\<close>.
\<close>

theorem interrupted_keeps_current_message:
  "currentMessageIdRef in_voice = None
   \<and> currentMessageIdRef (process host0 in_voice
        [(''k3x'', 6, Some (TextDelta ''Hello''))]) = Some ''k3x''
   \<and> currentMessageIdRef (process host0 in_voice
        [(''k3x'', 6, Some (TextDelta ''Hello'')), (''zz'', 7, Some Interrupted)]) = Some ''k3x''
   \<and> \<not> isTyping (process host0 in_voice
        [(''k3x'', 6, Some (TextDelta ''Hello'')), (''zz'', 7, Some Interrupted)])
   \<and> map content (messages (render host0 (process host0 (render host0 (process host0 in_voice
        [(''k3x'', 6, Some (TextDelta ''Hello'')), (''zz'', 7, Some Interrupted)]))
        [(''q'', 8, Some (TextDelta ''Next''))])))
      = map content (messages in_voice) @ [JStr ''HelloNext'']"
proof -
  have h: "currentMessageIdRef in_voice = None" "deferred in_voice = []"
    by (simp_all add: in_voice_simps)
  have ids: "map msg_id (messages in_voice) = [''1'', ''2'', ''4'']"
    by code_simp
  then have fresh: "''k3x'' \<notin> msg_id ` set (messages in_voice)"
    by (simp flip: set_map)
  have merged: "map content (messages (render host0 (process host0 (render host0
        (process host0 in_voice
          [(''k3x'', 6, Some (TextDelta ''Hello'')), (''zz'', 7, Some Interrupted)]))
        [(''q'', 8, Some (TextDelta ''Next''))])))
      = map content (messages in_voice) @ [JStr ''HelloNext'']"
    by (simp only: delta_after_interruption [OF h fresh]) simp
  have pointer: "currentMessageIdRef in_voice = None
   \<and> currentMessageIdRef (process host0 in_voice
        [(''k3x'', 6, Some (TextDelta ''Hello''))]) = Some ''k3x''
   \<and> currentMessageIdRef (process host0 in_voice
        [(''k3x'', 6, Some (TextDelta ''Hello'')), (''zz'', 7, Some Interrupted)]) = Some ''k3x''
   \<and> \<not> isTyping (process host0 in_voice
        [(''k3x'', 6, Some (TextDelta ''Hello'')), (''zz'', 7, Some Interrupted)])"
    by (simp add: onmessage_TextDelta onmessage_Interrupted on_text_first in_voice_simps
        on_interrupted_def Let_def)
  from pointer merged show ?thesis
    by (simp only: simp_thms)
qed

subsection \<open>Malformed events\<close>

lemma on_audio_cases:
  "on_audio H s v = (None, s, [])
   \<or> on_audio H s v = (Some InvalidCharacterError, s, [(Log, ''Received audio data:'')])
   \<or> (\<exists>node audioBuffer. on_audio H s v =
         (None, s\<lparr>players := (players s)(node := player_enqueue audioBuffer (players s node))\<rparr>,
          [(Log, ''Received audio data:'')]))"
  by (simp add: on_audio_def split: option.split) blast

lemma on_text_connection:
  "eventSourceRef (on_text s rnd now v) = eventSourceRef s"
  "isConnected (on_text s rnd now v) = isConnected s"
  "eventSources (on_text s rnd now v) = eventSources s"
  "closedSources (on_text s rnd now v) = closedSources s"
  by (simp_all add: on_text_def Let_def split: option.split)

lemma on_interrupted_connection:
  "eventSourceRef (on_interrupted s) = eventSourceRef s"
  "isConnected (on_interrupted s) = isConnected s"
  "eventSources (on_interrupted s) = eventSources s"
  "closedSources (on_interrupted s) = closedSources s"
  by (simp_all add: on_interrupted_def Let_def split: option.split)

lemma onmessage_unparsed:
  "onmessage H s rnd now None = (s, [(Error, ''Error parsing message:'')])"
  by (simp add: onmessage_def onmessage_try_def)

lemma onmessage_null:
  "onmessage H s rnd now (Some JNull) =
     (s, [(Log, ''Received data:''), (Error, ''Error parsing message:'')])"
  by (simp add: onmessage_def onmessage_try_def)

lemma onmessage_other:
  assumes "v \<noteq> JNull" "property v ''turn_complete'' \<noteq> Some (JBool True)"
    "property v ''interrupted'' \<noteq> Some (JBool True)"
  shows "onmessage H s rnd now (Some v) =
     (case on_audio H s v of
        (Some e, s1, lines) \<Rightarrow>
          (s1, (Log, ''Received data:'') # lines @ [(Error, ''Error parsing message:'')])
      | (None, s1, lines) \<Rightarrow> (on_text s1 rnd now v, (Log, ''Received data:'') # lines))"
  using assms
  by (simp add: onmessage_def onmessage_try_def split: prod.split option.split)


lemma onmessage_connection:
  "eventSourceRef (fst (onmessage H s rnd now parsed)) = eventSourceRef s
   \<and> isConnected (fst (onmessage H s rnd now parsed)) = isConnected s
   \<and> eventSources (fst (onmessage H s rnd now parsed)) = eventSources s
   \<and> closedSources (fst (onmessage H s rnd now parsed)) = closedSources s"
proof (cases parsed)
  case None
  then show ?thesis by (simp add: onmessage_unparsed)
next
  case (Some v)
  consider (null) "v = JNull"
    | (complete) "v \<noteq> JNull" "property v ''turn_complete'' = Some (JBool True)"
    | (interrupted) "v \<noteq> JNull" "property v ''turn_complete'' \<noteq> Some (JBool True)"
        "property v ''interrupted'' = Some (JBool True)"
    | (other) "v \<noteq> JNull" "property v ''turn_complete'' \<noteq> Some (JBool True)"
        "property v ''interrupted'' \<noteq> Some (JBool True)"
    by blast
  then show ?thesis
  proof cases
    case null
    with Some show ?thesis by (simp add: onmessage_null)
  next
    case complete
    with Some show ?thesis
      by (simp add: onmessage_def onmessage_try_def on_turn_complete_def)
  next
    case interrupted
    with Some show ?thesis
      by (simp add: onmessage_def onmessage_try_def on_interrupted_connection)
  next
    case other
    note eq = onmessage_other [OF other, of H s rnd now]
    from on_audio_cases [of H s v] show ?thesis
    proof (elim disjE exE)
      assume "on_audio H s v = (None, s, [])"
      with Some eq show ?thesis by (simp add: on_text_connection)
    next
      assume "on_audio H s v = (Some InvalidCharacterError, s, [(Log, ''Received audio data:'')])"
      with Some eq show ?thesis by simp
    next
      fix node audioBuffer
      assume "on_audio H s v =
         (None, s\<lparr>players := (players s)(node := player_enqueue audioBuffer (players s node))\<rparr>,
          [(Log, ''Received audio data:'')])"
      with Some eq show ?thesis by (simp add: on_text_connection)
    qed
  qed
qed

lemma onmessage_not_accepted:
  assumes "\<not> accepted v"
  shows "fst (onmessage H s rnd now (Some v)) = s \<and> snd (onmessage H s rnd now (Some v)) \<noteq> []"
proof (cases "v = JNull")
  case True
  then show ?thesis by (simp add: onmessage_null)
next
  case False
  from assms have tests: "property v ''turn_complete'' \<noteq> Some (JBool True)"
    "property v ''interrupted'' \<noteq> Some (JBool True)"
    "\<not> (property v ''mime_type'' = Some (JStr ''audio/pcm'') \<and> truthy (property v ''data''))"
    "\<not> (property v ''mime_type'' = Some (JStr ''text/plain'') \<and> truthy (property v ''data''))"
    by (simp_all add: accepted_def)
  from tests(3) have "on_audio H s v = (None, s, [])"
    by (auto simp: on_audio_def split: option.split)
  moreover from tests(4) have "on_text s rnd now v = s"
    by (auto simp: on_text_def)
  ultimately show ?thesis
    by (simp add: onmessage_other [OF False tests(1,2)])
qed

lemma onmessage_undecodable:
  assumes "v \<noteq> JNull" "property v ''turn_complete'' \<noteq> Some (JBool True)"
    "property v ''interrupted'' \<noteq> Some (JBool True)"
    "property v ''mime_type'' = Some (JStr ''audio/pcm'')"
    "base64ToArray (js_string H (the (property v ''data''))) = None"
  shows "fst (onmessage H s rnd now (Some v)) = s \<and> snd (onmessage H s rnd now (Some v)) \<noteq> []"
proof -
  have no_text: "\<And>u. on_text u rnd now v = u"
    using assms(4) by (simp add: on_text_def)
  have "on_audio H s v = (None, s, [])
      \<or> on_audio H s v = (Some InvalidCharacterError, s, [(Log, ''Received audio data:'')])"
    using assms(5) by (simp add: on_audio_def split: option.split)
  then show ?thesis
    by (auto simp: onmessage_other [OF assms(1-3)] no_text)
qed

lemma onmessage_caught:
  assumes "fst (onmessage_try H s rnd now parsed) = Some e"
  shows "fst (onmessage H s rnd now parsed) = s
    \<and> last (snd (onmessage H s rnd now parsed)) = (Error, ''Error parsing message:'')"
proof (cases parsed)
  case None
  then show ?thesis by (simp add: onmessage_unparsed)
next
  case (Some v)
  consider (null) "v = JNull"
    | (complete) "v \<noteq> JNull" "property v ''turn_complete'' = Some (JBool True)"
    | (interrupted) "v \<noteq> JNull" "property v ''turn_complete'' \<noteq> Some (JBool True)"
        "property v ''interrupted'' = Some (JBool True)"
    | (other) "v \<noteq> JNull" "property v ''turn_complete'' \<noteq> Some (JBool True)"
        "property v ''interrupted'' \<noteq> Some (JBool True)"
    by blast
  then show ?thesis
  proof cases
    case null
    with Some show ?thesis by (simp add: onmessage_null)
  next
    case complete
    with Some assms show ?thesis by (simp add: onmessage_try_def)
  next
    case interrupted
    with Some assms show ?thesis by (simp add: onmessage_try_def)
  next
    case other
    from on_audio_cases [of H s v] show ?thesis
    proof (elim disjE exE)
      assume "on_audio H s v = (None, s, [])"
      with Some other assms show ?thesis by (simp add: onmessage_try_def)
    next
      assume "on_audio H s v = (Some InvalidCharacterError, s, [(Log, ''Received audio data:'')])"
      with Some other show ?thesis by (simp add: onmessage_def onmessage_try_def)
    next
      fix node audioBuffer
      assume "on_audio H s v =
         (None, s\<lparr>players := (players s)(node := player_enqueue audioBuffer (players s node))\<rparr>,
          [(Log, ''Received audio data:'')])"
      with Some other assms show ?thesis by (simp add: onmessage_try_def)
    qed
  qed
qed

text \<open>
  Claim C10, as stated, fails for one kind of event. The object
  \<^verbatim>\<open>{"mime_type": "text/plain", "data": true}\<close> is not of one of the event shapes (its
  \<^verbatim>\<open>data\<close> is not a string), yet the handler does not drop it: the test
  \<^verbatim>\<open>data.mime_type === "text/plain" && data.data\<close> holds, the typing flag is set and a
  message whose content is \<^verbatim>\<open>true\<close> is appended to the transcript.
\<close>

theorem untyped_text_event_is_processed:
  "\<not> event_shape (JObj [(''mime_type'', JStr ''text/plain''), (''data'', JBool True)])
   \<and> \<not> isTyping connected_text \<and> length (messages connected_text) = 2
   \<and> isTyping (fst (onmessage host0 connected_text ''k3x'' 3
        (Some (JObj [(''mime_type'', JStr ''text/plain''), (''data'', JBool True)]))))
   \<and> map content (messages (fst (onmessage host0 connected_text ''k3x'' 3
        (Some (JObj [(''mime_type'', JStr ''text/plain''), (''data'', JBool True)])))))
       = map content (messages connected_text) @ [JBool True]"
  by (simp add: event_shape_def is_string_def onmessage_def onmessage_try_def on_audio_def
      on_text_def connected_text_simps Let_def)

text \<open>
  Claim C10, amended. The handler changes the connection for no event: whatever arrives,
  the event source the page holds, the sources opened and closed and \<open>isConnected\<close> are
  after the handler as before, and
  the handler returns: an exception raised in its \<^verbatim>\<open>try\<close> block is caught there, the
  state being what it was and the last console line the error line. An
  event is dropped, that is, the state is unchanged, at least one line is written to the
  console and the events after it are processed as if it had not arrived, when its payload
  is not valid JSON, or passes none of the four tests of the handler (this includes
  \<^verbatim>\<open>null\<close>, numbers, strings, arrays and objects of other shapes), or is an audio event
  whose data does not decode as base64. An object with one of the two mime types whose
  data is truthy without being a string passes the handler's test and is processed.
\<close>

theorem malformed_event_is_dropped:
  "eventSourceRef (fst (onmessage H s rnd now parsed)) = eventSourceRef s
   \<and> isConnected (fst (onmessage H s rnd now parsed)) = isConnected s
   \<and> eventSources (fst (onmessage H s rnd now parsed)) = eventSources s
   \<and> closedSources (fst (onmessage H s rnd now parsed)) = closedSources s
   \<and> (parsed = None \<or> (\<exists>v. parsed = Some v \<and> \<not> accepted v)
        \<or> (\<exists>v. parsed = Some v \<and> v \<noteq> JNull
              \<and> property v ''turn_complete'' \<noteq> Some (JBool True)
              \<and> property v ''interrupted'' \<noteq> Some (JBool True)
              \<and> property v ''mime_type'' = Some (JStr ''audio/pcm'')
              \<and> base64ToArray (js_string H (the (property v ''data''))) = None)
       \<longrightarrow> fst (onmessage H s rnd now parsed) = s
           \<and> snd (onmessage H s rnd now parsed) \<noteq> []
           \<and> process H s ((rnd, now, parsed) # events) = process H s events)
   \<and> (fst (onmessage_try H s rnd now parsed) \<noteq> None
       \<longrightarrow> fst (onmessage H s rnd now parsed) = s
           \<and> last (snd (onmessage H s rnd now parsed)) = (Error, ''Error parsing message:''))"
proof -
  have "fst (onmessage H s rnd now parsed) = s \<and> snd (onmessage H s rnd now parsed) \<noteq> []"
    if "parsed = None \<or> (\<exists>v. parsed = Some v \<and> \<not> accepted v)
        \<or> (\<exists>v. parsed = Some v \<and> v \<noteq> JNull
              \<and> property v ''turn_complete'' \<noteq> Some (JBool True)
              \<and> property v ''interrupted'' \<noteq> Some (JBool True)
              \<and> property v ''mime_type'' = Some (JStr ''audio/pcm'')
              \<and> base64ToArray (js_string H (the (property v ''data''))) = None)"
    using that
  proof (elim disjE exE conjE)
    assume "parsed = None"
    then show ?thesis by (simp add: onmessage_unparsed)
  next
    fix v assume "parsed = Some v" "\<not> accepted v"
    then show ?thesis by (simp add: onmessage_not_accepted)
  next
    fix v assume "parsed = Some v" "v \<noteq> JNull"
      "property v ''turn_complete'' \<noteq> Some (JBool True)"
      "property v ''interrupted'' \<noteq> Some (JBool True)"
      "property v ''mime_type'' = Some (JStr ''audio/pcm'')"
      "base64ToArray (js_string H (the (property v ''data''))) = None"
    then show ?thesis by (simp add: onmessage_undecodable)
  qed
  moreover have "fst (onmessage H s rnd now parsed) = s
      \<and> last (snd (onmessage H s rnd now parsed)) = (Error, ''Error parsing message:'')"
    if "fst (onmessage_try H s rnd now parsed) \<noteq> None"
    using that onmessage_caught [of H s rnd now parsed] by blast
  ultimately show ?thesis
    using onmessage_connection [of H s rnd now parsed] by simp
qed

lemma base64ToArray_bad: "base64ToArray ''@@@'' = None"
  by code_simp

theorem malformed_event_is_dropped_witness:
  "\<not> accepted (JObj [(''foo'', JNum 1)])
   \<and> fst (onmessage host0 connected_text ''k3x'' 3 (Some (JObj [(''foo'', JNum 1)])))
       = connected_text
   \<and> fst (onmessage host0 connected_text ''k3x'' 3 None) = connected_text
   \<and> fst (onmessage host0 in_voice ''k3x'' 6 (Some (AudioChunk ''@@@''))) = in_voice
   \<and> process host0 connected_text
        [(''k3x'', 3, Some (JObj [(''foo'', JNum 1)])), (''k3x'', 4, Some (TextDelta ''A''))]
       = process host0 connected_text [(''k3x'', 4, Some (TextDelta ''A''))]
   \<and> isConnected (fst (onmessage host0 connected_text ''k3x'' 3 None))"
proof -
  have a: "\<not> accepted (JObj [(''foo'', JNum 1)])"
    by (simp add: accepted_def)
  have b: "AudioChunk ''@@@'' \<noteq> JNull
      \<and> property (AudioChunk ''@@@'') ''turn_complete'' \<noteq> Some (JBool True)
      \<and> property (AudioChunk ''@@@'') ''interrupted'' \<noteq> Some (JBool True)
      \<and> property (AudioChunk ''@@@'') ''mime_type'' = Some (JStr ''audio/pcm'')
      \<and> base64ToArray (js_string host0 (the (property (AudioChunk ''@@@'') ''data''))) = None"
    by (simp add: AudioChunk_def js_string_def base64ToArray_bad)
  show ?thesis
    using a b
      malformed_event_is_dropped [of host0 connected_text "''k3x''" 3
        "Some (JObj [(''foo'', JNum 1)])" "[(''k3x'', 4, Some (TextDelta ''A''))]"]
      malformed_event_is_dropped [of host0 connected_text "''k3x''" 3 None "[]"]
      malformed_event_is_dropped [of host0 in_voice "''k3x''" 6 "Some (AudioChunk ''@@@'')" "[]"]
    by (simp add: connected_text_simps del: process.simps)
qed

end
